theory Spec2Isabelle
  imports Main
begin

section \<open>JavaScript values used by the pipeline\<close>

text \<open>
  Identifiers (message ids, user ids, thread ids) are JavaScript strings that may be
  missing. \<open>None\<close> stands for \<open>undefined\<close>/\<open>null\<close>; a value is truthy when it is
  a non-empty string.
\<close>

type_synonym jsid = "string option"

definition truthy :: "jsid \<Rightarrow> bool" where
  "truthy v = (case v of None \<Rightarrow> False | Some s \<Rightarrow> s \<noteq> [])"

text \<open>\<open>String(x || '')\<close> and \<open>a || b\<close> on identifiers.\<close>

definition or_empty :: "jsid \<Rightarrow> string" where
  "or_empty v = (case v of None \<Rightarrow> [] | Some s \<Rightarrow> s)"

definition js_or :: "jsid \<Rightarrow> jsid \<Rightarrow> jsid" where
  "js_or a b = (if truthy a then a else b)"

text \<open>
  \<open>Array.prototype.slice(start)\<close> for an integer \<open>start\<close>: a negative start counts
  from the end and is clamped at the beginning of the array.
\<close>

definition js_slice_from :: "int \<Rightarrow> 'a list \<Rightarrow> 'a list" where
  "js_slice_from start xs =
     (if start < 0 then drop (nat (max (int (length xs) + start) 0)) xs
      else drop (nat start) xs)"

section \<open>Message deduplication\<close>

text \<open>
  \<open>processedMessages\<close> is a \<open>Map\<close> from message id to the time it was first seen. A
  \<open>Map\<close> iterates in insertion order and \<open>set\<close> on a new key appends, so the ledger is
  an association list. Times are \<open>Date.now()\<close> readings in milliseconds.
\<close>

definition DEDUP_TTL :: int where
  "DEDUP_TTL = 5 * 60 * 1000"

type_synonym ledger = "(string \<times> int) list"

definition ledger_has :: "string \<Rightarrow> ledger \<Rightarrow> bool" where
  "ledger_has k m = (map_of m k \<noteq> None)"

text \<open>
  The loop \<open>for (const [id, ts] of processedMessages) if (now - ts > DEDUP_TTL) delete(id)\<close>,
  which the source writes out twice: inside \<open>isDuplicate\<close> and in the interval callback.
\<close>

definition evict_expired :: "int \<Rightarrow> ledger \<Rightarrow> ledger" where
  "evict_expired now m = filter (\<lambda>(k, ts). \<not> (now - ts > DEDUP_TTL)) m"

text \<open>
  \<open>isDuplicate(messageId)\<close>. The result is the returned boolean and the ledger after
  the call. \<open>now\<close> is the clock at the call: the source reads \<open>Date.now()\<close> for the
  insertion and again for the cleanup within the same synchronous run.
\<close>

definition isDuplicate :: "int \<Rightarrow> jsid \<Rightarrow> ledger \<Rightarrow> bool \<times> ledger" where
  "isDuplicate now messageId m =
     (case messageId of
        None \<Rightarrow> (False, m)
      | Some k \<Rightarrow>
          if k = [] then (False, m)
          else if ledger_has k m then (True, m)
          else
            let m1 = m @ [(k, now)]
            in (False, if length m1 > 200 then evict_expired now m1 else m1))"

text \<open>The callback of \<open>dedupCleanupInterval\<close>, run by a timer every \<open>DEDUP_TTL\<close>.\<close>

definition dedupCleanup :: "int \<Rightarrow> ledger \<Rightarrow> ledger" where
  "dedupCleanup now m = evict_expired now m"

text \<open>
  Other traffic on the ledger between two calls of interest: a dedup check of some
  message at some time, or a run of the periodic cleanup.
\<close>

datatype ledger_op = Check int jsid | Sweep int

fun op_time :: "ledger_op \<Rightarrow> int" where
  "op_time (Check now k) = now"
| "op_time (Sweep now) = now"

fun op_checks :: "string \<Rightarrow> ledger_op \<Rightarrow> bool" where
  "op_checks e (Check now k) = (k = Some e)"
| "op_checks e (Sweep now) = False"

fun apply_ledger_op :: "ledger_op \<Rightarrow> ledger \<Rightarrow> ledger" where
  "apply_ledger_op (Check now k) m = snd (isDuplicate now k m)"
| "apply_ledger_op (Sweep now) m = dedupCleanup now m"

fun run_ledger_ops :: "ledger_op list \<Rightarrow> ledger \<Rightarrow> ledger" where
  "run_ledger_ops [] m = m"
| "run_ledger_ops (x # xs) m = run_ledger_ops xs (apply_ledger_op x m)"

text \<open>
  All entries of \<open>e\<close> carry the time \<open>t0\<close> of its first sighting: this survives every
  operation that is not a fresh check of \<open>e\<close> itself, and a check of \<open>e\<close> while it is
  still recorded.
\<close>

definition stamped :: "string \<Rightarrow> int \<Rightarrow> ledger \<Rightarrow> bool" where
  "stamped e t0 m = list_all (\<lambda>(k, ts). k \<noteq> e \<or> ts = t0) m"

section \<open>Configuration\<close>

text \<open>
  The parts of \<open>config.json\<close> the pipeline reads. A missing field is \<open>None\<close>;
  \<open>config.groups || {}\<close> makes a missing \<open>groups\<close> the empty map. The legacy arrays
  \<open>allowed_groups\<close> and \<open>smart_groups\<close> are lists of chat ids (\<open>String(g.chat_id)\<close>).
  JSON numbers are integers here. Chat ids are the platform's ids (\<open>oc_...\<close>); a
  key that a JavaScript object inherits from \<open>Object.prototype\<close> (such as
  \<open>constructor\<close>) is not one, and \<open>groups[chatId]\<close> is the lookup in the map.
\<close>

record owner_binding =
  bound :: bool
  owner_user_id :: jsid
  owner_open_id :: jsid
  owner_name :: string

record group_config =
  group_name :: jsid
  group_mode :: jsid
  requireMention :: "bool option"
  allowFrom :: "string list option"
  historyLimit :: "int option"

record config =
  owner :: "owner_binding option"
  dmPolicy :: jsid
  dmAllowFrom :: "string list option"
  groupPolicy :: jsid
  groups :: "string \<rightharpoonup> group_config"
  allowed_groups :: "string list"
  smart_groups :: "string list"
  context_messages :: "int option"
  cfg_app_id :: jsid
  cfg_bot_open_id :: jsid

text \<open>\<open>a || b\<close> on numbers: \<open>undefined\<close> and \<open>0\<close> are falsy.\<close>

definition num_or :: "int option \<Rightarrow> int \<Rightarrow> int" where
  "num_or a b = (case a of None \<Rightarrow> b | Some n \<Rightarrow> if n = 0 then b else n)"

definition DEFAULT_HISTORY_LIMIT :: int where
  "DEFAULT_HISTORY_LIMIT = 5"

definition resolveGroupConfig :: "config \<Rightarrow> string \<Rightarrow> group_config option" where
  "resolveGroupConfig c chatId = groups c chatId"

definition getGroupHistoryLimit :: "config \<Rightarrow> string \<Rightarrow> int" where
  "getGroupHistoryLimit c chatId =
     num_or (case resolveGroupConfig c chatId of None \<Rightarrow> None | Some g \<Rightarrow> historyLimit g)
       (num_or (context_messages c) DEFAULT_HISTORY_LIMIT)"

section \<open>In-memory chat history\<close>

record history_entry =
  timestamp :: int
  message_id :: jsid
  user_id :: jsid
  open_id :: jsid
  user_name :: string
  entry_text :: string

type_synonym histories = "string \<rightharpoonup> history_entry list"

definition getHistoryKey :: "string \<Rightarrow> jsid \<Rightarrow> string" where
  "getHistoryKey chatId threadId =
     (if truthy threadId then chatId @ '':'' @ or_empty threadId else chatId)"

text \<open>
  \<open>historyKey.includes(':') ? historyKey.split(':')[0] : historyKey\<close>: the part of
  the key before its first colon.
\<close>

definition baseChatId :: "string \<Rightarrow> string" where
  "baseChatId historyKey =
     (if CHR '':'' \<in> set historyKey then takeWhile (\<lambda>ch. ch \<noteq> CHR '':'') historyKey
      else historyKey)"

definition recordHistoryEntry :: "config \<Rightarrow> string \<Rightarrow> history_entry \<Rightarrow> histories \<Rightarrow> histories" where
  "recordHistoryEntry c historyKey entry H =
     (let history = (case H historyKey of None \<Rightarrow> [] | Some h \<Rightarrow> h);
          H0 = H(historyKey \<mapsto> history)
      in if truthy (message_id entry) \<and> list_ex (\<lambda>m. message_id m = message_id entry) history
         then H0
         else
           let history' = history @ [entry];
               limit = getGroupHistoryLimit c (baseChatId historyKey)
           in if int (length history') > limit * 2
              then H0(historyKey \<mapsto> js_slice_from (- limit) history')
              else H0(historyKey \<mapsto> history'))"

definition getInMemoryContext :: "config \<Rightarrow> histories \<Rightarrow> string \<Rightarrow> jsid \<Rightarrow> history_entry list" where
  "getInMemoryContext c H historyKey currentMessageId =
     (case H historyKey of
        None \<Rightarrow> []
      | Some history \<Rightarrow>
          if history = [] then []
          else
            let limit = getGroupHistoryLimit c (baseChatId historyKey);
                filtered = filter (\<lambda>m. message_id m \<noteq> currentMessageId) history;
                count = min limit (int (length filtered))
            in js_slice_from (- count) filtered)"

text \<open>\<open>Array.prototype.findIndex\<close>: \<open>None\<close> stands for \<open>-1\<close>.\<close>

fun findIndex :: "('a \<Rightarrow> bool) \<Rightarrow> 'a list \<Rightarrow> nat option" where
  "findIndex P [] = None"
| "findIndex P (x # xs) = (if P x then Some 0 else map_option Suc (findIndex P xs))"

text \<open>
  \<open>pinRootMessage(context, rootId, historyKey)\<close>. A \<open>null\<close> context is \<open>None\<close>. With
  \<open>rootIdx > 0\<close> the entry is spliced out and put in front; with \<open>rootIdx = 0\<close> the
  copy is returned as it is; with \<open>rootIdx = -1\<close> the full buffer of the key is
  searched with \<open>Array.prototype.find\<close>.
\<close>

definition pinRootMessage ::
  "histories \<Rightarrow> history_entry list option \<Rightarrow> jsid \<Rightarrow> string \<Rightarrow> history_entry list option" where
  "pinRootMessage H context rootId historyKey =
     (case context of
        None \<Rightarrow> None
      | Some ctx \<Rightarrow>
          if \<not> truthy rootId then Some ctx
          else
            (case findIndex (\<lambda>m. message_id m = rootId) ctx of
               Some rootIdx \<Rightarrow>
                 if rootIdx > 0
                 then Some (ctx ! rootIdx # (take rootIdx ctx @ drop (Suc rootIdx) ctx))
                 else Some ctx
             | None \<Rightarrow>
                 (case H historyKey of
                    None \<Rightarrow> Some ctx
                  | Some fullHistory \<Rightarrow>
                      (case find (\<lambda>m. message_id m = rootId) fullHistory of
                         None \<Rightarrow> Some ctx
                       | Some rootEntry \<Rightarrow> Some (rootEntry # ctx)))))"

section \<open>Process state, collaborators and effects\<close>

text \<open>
  The module-level variables of the service: the configuration object (\<open>cfg\<close>, which
  \<open>index.js\<close> and \<open>lib/config.js\<close> share by reference), the content of
  \<open>config.json\<close> on disk, the dedup ledger, the history buffers, the set of
  lazily loaded containers, the set of preloaded groups, the group cursors and the
  bot's identity fetched at startup.
\<close>

record state =
  cfg :: config
  disk :: config
  processedMessages :: ledger
  chatHistories :: histories
  lazyLoadedContainers :: "string set"
  preloadedGroups :: "string set"
  groupCursors :: "string \<rightharpoonup> jsid"
  botOpenId :: string
  botAppId :: string

datatype container_type = Chat | Thread

text \<open>
  A message of the remote history API after normalisation: \<open>createTime\<close> is the number
  \<open>new Date(msg.createTime)\<close> compares by, \<open>remote_text\<close> the text after post
  flattening and mention resolution.
\<close>

record remote_message =
  createTime :: int
  remote_id :: jsid
  remote_sender :: jsid
  remote_text :: string

datatype fetch_result = FetchThrows | FetchFailed | FetchOk "remote_message list"

text \<open>
  What the collaborators answer during one run: the clock, whether writing
  \<open>config.json\<close> succeeds, the name \<open>resolveUserName\<close> returns, the text
  \<open>resolveMentions\<close> returns, the answer of \<open>listMessages\<close>, the quoted message
  \<open>fetchQuotedMessage\<close> finds, and whether a download succeeds.
\<close>

record env =
  clock :: int
  write_ok :: bool
  resolveUserName :: "jsid \<Rightarrow> string"
  resolveMentions :: "string \<Rightarrow> string"
  listMessages :: "string \<Rightarrow> container_type \<Rightarrow> fetch_result"
  fetchQuotedMessage :: "jsid \<Rightarrow> (string \<times> string) option"
  download_ok :: "string \<Rightarrow> bool"

text \<open>The text handed to \<open>formatMessage\<close>, by the branch that builds it.\<close>

datatype body =
    PlainText string
  | ImagesText nat string
  | ImageDownloadFailed
  | FileText string string
  | FileDownloadFailed string

text \<open>The arguments of \<open>formatMessage\<close>; the string it builds from them is not modelled.\<close>

record format_args =
  fa_chatType :: string
  fa_userName :: string
  fa_body :: body
  fa_contextMessages :: "history_entry list"
  fa_mediaPath :: "string option"
  fa_quotedContent :: "(string \<times> string) option"
  fa_threadContext :: "history_entry list option"
  fa_threadRootId :: jsid
  fa_smartHint :: bool

text \<open>Calls that leave the process, in the order the code makes them.\<close>

text \<open>The fixed texts the service sends back to a conversation.\<close>

datatype notice =
    DmNotAvailable
  | GroupChatDisabled
  | NotAvailableInGroup
  | NoPermissionInGroup
  | ImageDownloadFailedNotice
  | FileDownloadFailedNotice

datatype effect =
    WriteConfig
  | AppendLog jsid jsid
  | SendMessage string notice
  | ReplyToMessage jsid notice
  | SendThreadAwareMessage string notice
  | AddTypingIndicator jsid
  | RemoveTypingIndicator jsid
  | ListMessages string int container_type
  | ListChatMembers string
  | FetchQuoted jsid
  | SaveCursors
  | DownloadImage string
  | DownloadFile string
  | SendToC4 string format_args

fun is_fetch :: "effect \<Rightarrow> bool" where
  "is_fetch (ListMessages c l t) = True"
| "is_fetch _ = False"

fun is_forward :: "effect \<Rightarrow> bool" where
  "is_forward (SendToC4 ep a) = True"
| "is_forward _ = False"

section \<open>Logging and context with lazy backfill\<close>

text \<open>
  \<open>logMessage\<close>: one line appended to the audit log (named after the sender for a
  direct chat, after the chat otherwise, and after the thread when there is one; a write
  failure is caught), then the in-memory record: into the thread's buffer when the
  message has a thread id, else into the chat's buffer for a group chat, else nowhere.
  The sanitised file name holds no path separator, so the path guard never fires.
\<close>

definition logMessage ::
  "env \<Rightarrow> string \<Rightarrow> string \<Rightarrow> jsid \<Rightarrow> jsid \<Rightarrow> string \<Rightarrow> jsid \<Rightarrow> int option \<Rightarrow> jsid
     \<Rightarrow> state \<Rightarrow> effect list \<times> state" where
  "logMessage e chatType chatId userId openId txt messageId ts threadId st =
     (let logEntry = \<lparr>timestamp = (case ts of None \<Rightarrow> clock e | Some t \<Rightarrow> t),
                      message_id = messageId, user_id = userId, open_id = openId,
                      user_name = resolveUserName e userId,
                      entry_text = resolveMentions e txt\<rparr>;
          logId = (if chatType = ''p2p'' then userId else Some chatId);
          fx = [AppendLog logId (if truthy threadId then threadId else None)]
      in if truthy threadId
         then (fx, st\<lparr>chatHistories :=
                 recordHistoryEntry (cfg st) (getHistoryKey chatId threadId) logEntry
                   (chatHistories st)\<rparr>)
         else if chatType = ''group''
         then (fx, st\<lparr>chatHistories :=
                 recordHistoryEntry (cfg st) chatId logEntry (chatHistories st)\<rparr>)
         else (fx, st))"

definition entry_of_remote :: "env \<Rightarrow> remote_message \<Rightarrow> history_entry" where
  "entry_of_remote e msg =
     \<lparr>timestamp = createTime msg, message_id = remote_id msg, user_id = remote_sender msg,
      open_id = None, user_name = resolveUserName e (remote_sender msg),
      entry_text = remote_text msg\<rparr>"

text \<open>
  \<open>getContextWithFallback(containerId, currentMessageId, containerType, historyKey,
  historyLimit)\<close>. A key in \<open>_lazyLoadedContainers\<close> is served from memory. Otherwise
  the remote history is fetched: only a successful result marks the key and records
  the messages in order of \<open>createTime\<close>; an unsuccessful result or an exception
  leaves the key unmarked. Every path ends in \<open>getInMemoryContext\<close>.
\<close>

definition getContextWithFallback ::
  "env \<Rightarrow> string \<Rightarrow> jsid \<Rightarrow> container_type \<Rightarrow> string \<Rightarrow> int option \<Rightarrow> state
     \<Rightarrow> history_entry list \<times> effect list \<times> state" where
  "getContextWithFallback e containerId currentMessageId containerType historyKey histLimit st =
     (if historyKey \<in> lazyLoadedContainers st
      then (getInMemoryContext (cfg st) (chatHistories st) historyKey currentMessageId, [], st)
      else
        let limit = num_or histLimit
                      (case containerType of
                         Thread \<Rightarrow> num_or (context_messages (cfg st)) DEFAULT_HISTORY_LIMIT
                       | Chat \<Rightarrow> getGroupHistoryLimit (cfg st) containerId);
            fx = [ListMessages containerId limit containerType]
        in case listMessages e containerId containerType of
             FetchOk messages \<Rightarrow>
               let st1 = st\<lparr>lazyLoadedContainers := insert historyKey (lazyLoadedContainers st)\<rparr>;
                   st2 = st1\<lparr>chatHistories :=
                           foldl (\<lambda>H msg. recordHistoryEntry (cfg st) historyKey (entry_of_remote e msg) H)
                             (chatHistories st1) (sort_key createTime messages)\<rparr>
               in (getInMemoryContext (cfg st2) (chatHistories st2) historyKey currentMessageId, fx, st2)
           | FetchFailed \<Rightarrow>
               (getInMemoryContext (cfg st) (chatHistories st) historyKey currentMessageId, fx, st)
           | FetchThrows \<Rightarrow>
               (getInMemoryContext (cfg st) (chatHistories st) historyKey currentMessageId, fx, st))"

definition getGroupContext ::
  "env \<Rightarrow> string \<Rightarrow> jsid \<Rightarrow> state \<Rightarrow> history_entry list \<times> effect list \<times> state" where
  "getGroupContext e chatId currentMessageId st =
     getContextWithFallback e chatId currentMessageId Chat chatId None st"

text \<open>Two consecutive reads with fallback for one key; the remote fetches they make.\<close>

definition two_reads ::
  "env \<Rightarrow> env \<Rightarrow> string \<Rightarrow> jsid \<Rightarrow> jsid \<Rightarrow> container_type \<Rightarrow> string \<Rightarrow> int option \<Rightarrow> state
     \<Rightarrow> effect list" where
  "two_reads e1 e2 containerId cur1 cur2 containerType historyKey histLimit st =
     (case getContextWithFallback e1 containerId cur1 containerType historyKey histLimit st of
        (c1, fx1, st1) \<Rightarrow>
          (case getContextWithFallback e2 containerId cur2 containerType historyKey histLimit st1 of
             (c2, fx2, st2) \<Rightarrow> fx1 @ fx2))"

section \<open>Access policy\<close>

definition owner_bound :: "config \<Rightarrow> bool" where
  "owner_bound c = (case owner c of None \<Rightarrow> False | Some ob \<Rightarrow> bound ob)"

definition isOwner :: "config \<Rightarrow> jsid \<Rightarrow> jsid \<Rightarrow> bool" where
  "isOwner c userId openId =
     (case owner c of
        None \<Rightarrow> False
      | Some ob \<Rightarrow>
          if \<not> bound ob then False
          else (owner_user_id ob \<noteq> None \<and> userId \<noteq> None \<and> owner_user_id ob = userId)
             \<or> (owner_open_id ob \<noteq> None \<and> openId \<noteq> None \<and> owner_open_id ob = openId))"

definition isDmAllowed :: "config \<Rightarrow> jsid \<Rightarrow> jsid \<Rightarrow> bool" where
  "isDmAllowed c userId openId =
     (if isOwner c userId openId then True
      else
        let policy = (if truthy (dmPolicy c) then or_empty (dmPolicy c) else ''owner'')
        in if policy = ''open'' then True
           else if policy = ''owner'' then False
           else
             let allowFrom' = (case dmAllowFrom c of None \<Rightarrow> [] | Some l \<Rightarrow> l);
                 normalizedUserId = or_empty userId;
                 normalizedOpenId = or_empty openId
             in (normalizedUserId \<noteq> [] \<and> normalizedUserId \<in> set allowFrom')
              \<or> (normalizedOpenId \<noteq> [] \<and> normalizedOpenId \<in> set allowFrom'))"

definition effective_groupPolicy :: "config \<Rightarrow> string" where
  "effective_groupPolicy c = (if truthy (groupPolicy c) then or_empty (groupPolicy c) else ''allowlist'')"

definition isGroupAllowed :: "config \<Rightarrow> string \<Rightarrow> bool" where
  "isGroupAllowed c chatId =
     (if effective_groupPolicy c = ''disabled'' then False
      else if effective_groupPolicy c = ''open'' then True
      else if resolveGroupConfig c chatId \<noteq> None then True
      else if chatId \<in> set (allowed_groups c) \<or> chatId \<in> set (smart_groups c) then True
      else False)"

definition isSmartGroup :: "config \<Rightarrow> string \<Rightarrow> bool" where
  "isSmartGroup c chatId =
     (if effective_groupPolicy c = ''disabled'' then False
      else
        (case resolveGroupConfig c chatId of
           Some g \<Rightarrow> group_mode g = Some ''smart'' \<or> requireMention g = Some False
         | None \<Rightarrow> chatId \<in> set (smart_groups c)))"

text \<open>\<open>String.prototype.toLowerCase\<close> on ASCII letters.\<close>

definition lower_char :: "char \<Rightarrow> char" where
  "lower_char ch =
     (let n = (of_char ch :: nat) in if 65 \<le> n \<and> n \<le> 90 then char_of (n + 32) else ch)"

definition toLowerCase :: "string \<Rightarrow> string" where
  "toLowerCase s = map lower_char s"

definition isSenderAllowedInGroup :: "config \<Rightarrow> string \<Rightarrow> jsid \<Rightarrow> jsid \<Rightarrow> bool" where
  "isSenderAllowedInGroup c chatId senderUserId senderOpenId =
     (case (case resolveGroupConfig c chatId of None \<Rightarrow> None | Some g \<Rightarrow> allowFrom g) of
        None \<Rightarrow> True
      | Some af \<Rightarrow>
          if af = [] then True
          else
            let allowed = map toLowerCase af;
                normalizedSenderUserId = toLowerCase (or_empty senderUserId);
                normalizedSenderOpenId = toLowerCase (or_empty senderOpenId)
            in if ''*'' \<in> set allowed then True
               else if normalizedSenderUserId \<noteq> [] \<and> normalizedSenderUserId \<in> set allowed then True
               else if normalizedSenderOpenId \<noteq> [] \<and> normalizedSenderOpenId \<in> set allowed then True
               else False)"

record mention =
  mention_open_id :: jsid
  mention_user_id :: jsid
  mention_app_id :: jsid
  mention_key :: jsid
  mention_name :: jsid

definition isBotMentioned :: "mention list option \<Rightarrow> string \<Rightarrow> bool" where
  "isBotMentioned ms botId =
     (case ms of
        None \<Rightarrow> False
      | Some l \<Rightarrow>
          list_ex (\<lambda>m.
             let mentionId = or_empty (js_or (mention_open_id m)
                                        (js_or (mention_user_id m) (mention_app_id m)))
             in (botId \<noteq> [] \<and> mentionId = botId) \<or> mention_key m = Some ''@_all'') l)"

section \<open>Inbound events\<close>

text \<open>
  The \<open>im.message.receive_v1\<close> event as \<open>handleMessage\<close> reads it, with the result of
  \<open>extractMessageContent\<close> (text, image keys, file key, file name) in place of the raw
  content.
\<close>

record event =
  sender_open_id :: jsid
  sender_app_id :: jsid
  sender_user_id :: jsid
  chat_id :: string
  ev_message_id :: jsid
  chat_type :: string
  root_id :: jsid
  parent_id :: jsid
  thread_id :: jsid
  mentions :: "mention list option"
  ev_text :: string
  imageKeys :: "string list"
  fileKey :: jsid
  fileName :: string
  ev_timestamp :: "int option"

text \<open>\<open>x || null\<close>.\<close>

definition or_null :: "jsid \<Rightarrow> jsid" where
  "or_null v = (if truthy v then v else None)"

text \<open>
  The five guards at the head of the group branch of \<open>handleMessage\<close>, in the order
  the code tests them.
\<close>

datatype group_gate = PolicyDisabled | GroupNotAllowed | SenderNotAllowed | LogOnly | Forward

definition groupDecision :: "config \<Rightarrow> string \<Rightarrow> event \<Rightarrow> group_gate" where
  "groupDecision c botId ev =
     (let mentioned = isBotMentioned (mentions ev) botId;
          senderIsOwner = isOwner c (sender_user_id ev) (sender_open_id ev);
          allowedGroup = isGroupAllowed c (chat_id ev);
          smart = isSmartGroup c (chat_id ev)
      in if effective_groupPolicy c = ''disabled'' then PolicyDisabled
         else if \<not> allowedGroup \<and> \<not> (senderIsOwner \<and> mentioned) then GroupNotAllowed
         else if \<not> isSenderAllowedInGroup c (chat_id ev) (sender_user_id ev) (sender_open_id ev)
                 \<and> \<not> senderIsOwner then SenderNotAllowed
         else if \<not> smart \<and> \<not> mentioned then LogOnly
         else Forward)"

definition denied :: "group_gate \<Rightarrow> bool" where
  "denied g = (g = PolicyDisabled \<or> g = GroupNotAllowed \<or> g = SenderNotAllowed)"

section \<open>Owner binding\<close>

text \<open>
  What a JavaScript call hands back to a caller that tests it with \<open>!\<close>: a function
  without a \<open>return\<close> statement yields \<open>undefined\<close>.
\<close>

datatype jsval = JUndefined | JBool bool

fun js_truthy :: "jsval \<Rightarrow> bool" where
  "js_truthy JUndefined = False"
| "js_truthy (JBool b) = b"

datatype error = SaveConfigError

text \<open>
  \<open>saveConfig(newConfig)\<close> of \<open>lib/config.js\<close>: on a successful write the module's
  configuration becomes \<open>newConfig\<close> and the function ends without a \<open>return\<close>; on
  a failed write the error is logged and thrown again.
\<close>

definition saveConfig :: "env \<Rightarrow> config \<Rightarrow> state \<Rightarrow> (error + jsval) \<times> state" where
  "saveConfig e newConfig st =
     (if write_ok e then (Inr JUndefined, st\<lparr>disk := newConfig, cfg := newConfig\<rparr>)
      else (Inl SaveConfigError, st))"

text \<open>
  \<open>bindOwner(userId, openId)\<close>: the owner is assigned in memory, then
  \<open>if (!saveConfig(config))\<close> restores the previous owner and returns \<open>null\<close>;
  otherwise the user name is returned. An exception of \<open>saveConfig\<close> leaves
  \<open>bindOwner\<close> at the call, with the assignment in place.
\<close>

definition bindOwner :: "env \<Rightarrow> jsid \<Rightarrow> jsid \<Rightarrow> state \<Rightarrow> (error + jsid) \<times> state" where
  "bindOwner e userId openId st =
     (let userName = resolveUserName e userId;
          previousOwner = owner (cfg st);
          st1 = st\<lparr>cfg := (cfg st)\<lparr>owner :=
                   Some \<lparr>bound = True, owner_user_id = userId, owner_open_id = openId,
                         owner_name = userName\<rparr>\<rparr>\<rparr>
      in case saveConfig e (cfg st1) st1 of
           (Inl err, st2) \<Rightarrow> (Inl err, st2)
         | (Inr r, st2) \<Rightarrow>
             if \<not> js_truthy r
             then (Inr None, st2\<lparr>cfg := (cfg st2)\<lparr>owner := previousOwner\<rparr>\<rparr>)
             else (Inr (Some userName), st2))"

section \<open>The message handler\<close>

record outcome =
  out_state :: state
  out_effects :: "effect list"
  out_thrown :: bool

definition buildEndpoint :: "string \<Rightarrow> string \<Rightarrow> jsid \<Rightarrow> jsid \<Rightarrow> jsid \<Rightarrow> jsid \<Rightarrow> string" where
  "buildEndpoint chatId chatType rootId parentId messageId threadId =
     chatId
     @ (if chatType \<noteq> [] then ''|type:'' @ chatType else [])
     @ (if truthy rootId then ''|root:'' @ or_empty rootId else [])
     @ (if truthy parentId then ''|parent:'' @ or_empty parentId else [])
     @ (if truthy messageId then ''|msg:'' @ or_empty messageId else [])
     @ (if truthy threadId then ''|thread:'' @ or_empty threadId else [])"

definition event_endpoint :: "event \<Rightarrow> string" where
  "event_endpoint ev =
     buildEndpoint (chat_id ev) (chat_type ev) (or_null (root_id ev)) (or_null (parent_id ev))
       (ev_message_id ev) (or_null (thread_id ev))"

text \<open>
  The log text: the message text followed by one line per image key and one for the
  file key. \<open>String(messageId)\<close> of a missing id is \<open>undefined\<close>.
\<close>

definition id_text :: "jsid \<Rightarrow> string" where
  "id_text v = (case v of None \<Rightarrow> ''undefined'' | Some s \<Rightarrow> s)"

definition append_line :: "string \<Rightarrow> string \<Rightarrow> string" where
  "append_line logText info = (if logText \<noteq> [] then logText @ [CHR 0x0A] @ info else info)"

definition logText_of :: "event \<Rightarrow> string" where
  "logText_of ev =
     (let t1 = foldl (\<lambda>acc imgKey.
                  append_line acc (''[image, image_key: '' @ imgKey @ '', msg_id: ''
                                     @ id_text (ev_message_id ev) @ '']''))
                (ev_text ev) (imageKeys ev)
      in if truthy (fileKey ev)
         then append_line t1 (''[file: '' @ fileName ev @ '', file_key: '' @ or_empty (fileKey ev)
                                @ '', msg_id: '' @ id_text (ev_message_id ev) @ '']'')
         else t1)"

text \<open>
  Thread context for a topic message (backfilled once, root pinned first), or the quoted
  message for a reply; \<open>lim\<close> is the history limit of the branch.
\<close>

definition thread_or_quote ::
  "env \<Rightarrow> event \<Rightarrow> int \<Rightarrow> state
     \<Rightarrow> history_entry list option \<times> (string \<times> string) option \<times> effect list \<times> state" where
  "thread_or_quote e ev lim st =
     (let threadId = or_null (thread_id ev);
          rootId = or_null (root_id ev);
          parentId = or_null (parent_id ev)
      in if truthy threadId
         then
           let threadHistoryKey = getHistoryKey (chat_id ev) threadId
           in (case getContextWithFallback e (or_empty threadId) (ev_message_id ev) Thread
                      threadHistoryKey (Some lim) st of
                 (ctx, fx, st1) \<Rightarrow>
                   (if truthy rootId
                    then pinRootMessage (chatHistories st1) (Some ctx) rootId threadHistoryKey
                    else Some ctx,
                    None, fx, st1))
         else if truthy parentId
         then (None, fetchQuotedMessage e parentId, [FetchQuoted parentId], st)
         else (None, None, [], st))"

text \<open>
  The end of the direct-message branch: images, else a file, else the text. Each path
  calls \<open>sendToC4\<close> once. A downloaded file is named by its key here.
\<close>

definition p2p_dispatch ::
  "env \<Rightarrow> event \<Rightarrow> history_entry list option \<Rightarrow> (string \<times> string) option \<Rightarrow> effect list" where
  "p2p_dispatch e ev threadContext quotedContent =
     (let senderName = resolveUserName e (sender_user_id ev);
          cleanText = resolveMentions e (ev_text ev);
          threadRootId = (if truthy (thread_id ev) then or_null (root_id ev) else None);
          args = (\<lambda>b media. \<lparr>fa_chatType = ''p2p'', fa_userName = senderName, fa_body = b,
                     fa_contextMessages = [], fa_mediaPath = media,
                     fa_quotedContent = quotedContent, fa_threadContext = threadContext,
                     fa_threadRootId = threadRootId, fa_smartHint = False\<rparr>)
      in if imageKeys ev \<noteq> []
         then map DownloadImage (imageKeys ev) @
           (case filter (download_ok e) (imageKeys ev) of
              [] \<Rightarrow> [SendToC4 (event_endpoint ev) (args ImageDownloadFailed None)]
            | p # ps \<Rightarrow>
                [SendToC4 (event_endpoint ev) (args (ImagesText (Suc (length ps)) cleanText) (Some p))])
         else if truthy (fileKey ev)
         then DownloadFile (or_empty (fileKey ev)) #
           (if download_ok e (or_empty (fileKey ev))
            then [SendToC4 (event_endpoint ev)
                    (args (FileText (fileName ev) []) (Some (or_empty (fileKey ev))))]
            else [SendToC4 (event_endpoint ev) (args (FileDownloadFailed (fileName ev)) None)])
         else [SendToC4 (event_endpoint ev) (args (PlainText cleanText) None)])"

text \<open>The direct-message branch after the owner check.\<close>

definition p2p_allowed :: "env \<Rightarrow> event \<Rightarrow> state \<Rightarrow> effect list \<Rightarrow> outcome" where
  "p2p_allowed e ev st fx0 =
     (if \<not> isDmAllowed (cfg st) (sender_user_id ev) (sender_open_id ev)
      then \<lparr>out_state = st, out_effects = fx0 @ [SendMessage (chat_id ev) DmNotAvailable],
            out_thrown = False\<rparr>
      else
        (case logMessage e (chat_type ev) (chat_id ev) (sender_user_id ev) (sender_open_id ev)
                (logText_of ev) (ev_message_id ev) (ev_timestamp ev) (or_null (thread_id ev)) st of
           (fxL, st1) \<Rightarrow>
             (case thread_or_quote e ev
                     (num_or (context_messages (cfg st1)) DEFAULT_HISTORY_LIMIT) st1 of
                (threadContext, quotedContent, fxC, st2) \<Rightarrow>
                  \<lparr>out_state = st2,
                   out_effects = fx0 @ fxL @ [AddTypingIndicator (ev_message_id ev)] @ fxC
                                   @ p2p_dispatch e ev threadContext quotedContent,
                   out_thrown = False\<rparr>)))"

definition handle_p2p :: "env \<Rightarrow> event \<Rightarrow> state \<Rightarrow> outcome" where
  "handle_p2p e ev st =
     (if \<not> owner_bound (cfg st)
      then
        (case bindOwner e (sender_user_id ev) (sender_open_id ev) st of
           (Inl err, st1) \<Rightarrow>
             \<lparr>out_state = st1, out_effects = [WriteConfig], out_thrown = True\<rparr>
         | (Inr boundOwner, st1) \<Rightarrow>
             if \<not> truthy boundOwner
             then \<lparr>out_state = st1, out_effects = [WriteConfig], out_thrown = False\<rparr>
             else p2p_allowed e ev st1 [WriteConfig])
      else p2p_allowed e ev st [])"

text \<open>
  The end of the group branch. A smart group without a mention forwards media as text
  with the smart hint and downloads nothing; a failed download ends in a notice to the
  conversation and no forward. The group's display name is left out of the arguments.
\<close>

definition group_dispatch ::
  "env \<Rightarrow> event \<Rightarrow> bool \<Rightarrow> history_entry list \<Rightarrow> history_entry list option
     \<Rightarrow> (string \<times> string) option \<Rightarrow> effect list" where
  "group_dispatch e ev smartNoMention contextMessages threadContext quotedContent =
     (let senderName = resolveUserName e (sender_user_id ev);
          cleanText = resolveMentions e (ev_text ev);
          cleanLogText = resolveMentions e (logText_of ev);
          threadRootId = (if truthy (thread_id ev) then or_null (root_id ev) else None);
          args = (\<lambda>b media hint. \<lparr>fa_chatType = ''group'', fa_userName = senderName, fa_body = b,
                     fa_contextMessages = contextMessages, fa_mediaPath = media,
                     fa_quotedContent = quotedContent, fa_threadContext = threadContext,
                     fa_threadRootId = threadRootId, fa_smartHint = hint\<rparr>)
      in if imageKeys ev \<noteq> []
         then
           if smartNoMention
           then [SendToC4 (event_endpoint ev)
                   (args (PlainText (if cleanLogText \<noteq> [] then cleanLogText else ''[image]''))
                      None True)]
           else map DownloadImage (imageKeys ev) @
             (case filter (download_ok e) (imageKeys ev) of
                [] \<Rightarrow> [RemoveTypingIndicator (ev_message_id ev),
                       SendThreadAwareMessage (chat_id ev) ImageDownloadFailedNotice]
              | p # ps \<Rightarrow>
                  [SendToC4 (event_endpoint ev)
                     (args (ImagesText (Suc (length ps)) cleanText) (Some p) False)])
         else if truthy (fileKey ev)
         then
           if smartNoMention
           then [SendToC4 (event_endpoint ev)
                   (args (PlainText (if cleanLogText \<noteq> [] then cleanLogText
                                     else ''[file: '' @ fileName ev @ '']''))
                      None True)]
           else DownloadFile (or_empty (fileKey ev)) #
             (if download_ok e (or_empty (fileKey ev))
              then [SendToC4 (event_endpoint ev)
                      (args (FileText (fileName ev) cleanText) (Some (or_empty (fileKey ev))) False)]
              else [RemoveTypingIndicator (ev_message_id ev),
                    SendThreadAwareMessage (chat_id ev) FileDownloadFailedNotice])
         else [SendToC4 (event_endpoint ev)
                 (args (PlainText (if cleanText \<noteq> [] then cleanText else ev_text ev))
                    None smartNoMention)])"

text \<open>\<open>preloadGroupMembers\<close>: one member listing per chat and process.\<close>

definition preloadGroupMembers :: "string \<Rightarrow> state \<Rightarrow> effect list \<times> state" where
  "preloadGroupMembers chatId st =
     (if chatId \<in> preloadedGroups st then ([], st)
      else ([ListChatMembers chatId], st\<lparr>preloadedGroups := insert chatId (preloadedGroups st)\<rparr>))"

text \<open>The group branch once the guards have let the message through.\<close>

definition group_forward :: "env \<Rightarrow> event \<Rightarrow> state \<Rightarrow> outcome" where
  "group_forward e ev st =
     (let smartNoMention = (isSmartGroup (cfg st) (chat_id ev)
                             \<and> \<not> isBotMentioned (mentions ev) (botOpenId st))
      in case logMessage e (chat_type ev) (chat_id ev) (sender_user_id ev) (sender_open_id ev)
                (logText_of ev) (ev_message_id ev) (ev_timestamp ev) (or_null (thread_id ev)) st of
           (fxL, st1) \<Rightarrow>
             (case preloadGroupMembers (chat_id ev) st1 of
                (fxP, st2) \<Rightarrow>
                  (case getGroupContext e (chat_id ev) (ev_message_id ev) st2 of
                     (contextMessages, fxG, st3) \<Rightarrow>
                       let st4 = st3\<lparr>groupCursors :=
                                   (groupCursors st3)(chat_id ev \<mapsto> ev_message_id ev)\<rparr>;
                           fxT = (if \<not> smartNoMention
                                  then [AddTypingIndicator (ev_message_id ev)] else [])
                       in (case thread_or_quote e ev
                                  (getGroupHistoryLimit (cfg st4) (chat_id ev)) st4 of
                             (threadContext, quotedContent, fxC, st5) \<Rightarrow>
                               \<lparr>out_state = st5,
                                out_effects = fxL @ fxP @ fxG @ [SaveCursors] @ fxT @ fxC
                                   @ group_dispatch e ev smartNoMention contextMessages
                                       threadContext quotedContent,
                                out_thrown = False\<rparr>))))"

definition handle_group :: "env \<Rightarrow> event \<Rightarrow> state \<Rightarrow> outcome" where
  "handle_group e ev st =
     (let mentioned = isBotMentioned (mentions ev) (botOpenId st);
          reply = (\<lambda>n. if mentioned then [ReplyToMessage (ev_message_id ev) n] else [])
      in case groupDecision (cfg st) (botOpenId st) ev of
           PolicyDisabled \<Rightarrow>
             \<lparr>out_state = st, out_effects = reply GroupChatDisabled, out_thrown = False\<rparr>
         | GroupNotAllowed \<Rightarrow>
             \<lparr>out_state = st, out_effects = reply NotAvailableInGroup, out_thrown = False\<rparr>
         | SenderNotAllowed \<Rightarrow>
             \<lparr>out_state = st, out_effects = reply NoPermissionInGroup, out_thrown = False\<rparr>
         | LogOnly \<Rightarrow>
             if isGroupAllowed (cfg st) (chat_id ev)
             then
               (case logMessage e (chat_type ev) (chat_id ev) (sender_user_id ev)
                       (sender_open_id ev) (logText_of ev) (ev_message_id ev) (ev_timestamp ev)
                       (or_null (thread_id ev)) st of
                  (fxL, st1) \<Rightarrow> \<lparr>out_state = st1, out_effects = fxL, out_thrown = False\<rparr>)
             else \<lparr>out_state = st, out_effects = [], out_thrown = False\<rparr>
         | Forward \<Rightarrow> group_forward e ev st)"

text \<open>
  The sender id of the self guard: the first truthy one of \<open>open_id\<close>, \<open>app_id\<close>,
  \<open>user_id\<close>, else the empty string.
\<close>

definition senderId_of :: "event \<Rightarrow> string" where
  "senderId_of ev =
     or_empty (js_or (sender_open_id ev) (js_or (sender_app_id ev) (sender_user_id ev)))"

definition is_self :: "state \<Rightarrow> string \<Rightarrow> bool" where
  "is_self st senderId =
     (senderId \<noteq> []
      \<and> (senderId = botAppId st \<or> senderId = botOpenId st
         \<or> senderId = or_empty (cfg_app_id (cfg st))
         \<or> senderId = or_empty (cfg_bot_open_id (cfg st))))"

text \<open>
  \<open>handleMessage(data)\<close>: the self guard, the dedup check, then the branch of the chat
  type. The outcome is the state after the run, the calls it made and whether it ended
  in an exception.
\<close>

definition handleMessage :: "env \<Rightarrow> event \<Rightarrow> state \<Rightarrow> outcome" where
  "handleMessage e ev st =
     (if is_self st (senderId_of ev)
      then \<lparr>out_state = st, out_effects = [], out_thrown = False\<rparr>
      else
        (case isDuplicate (clock e) (ev_message_id ev) (processedMessages st) of
           (dup, m) \<Rightarrow>
             let st1 = st\<lparr>processedMessages := m\<rparr>
             in if dup then \<lparr>out_state = st1, out_effects = [], out_thrown = False\<rparr>
                else if chat_type ev = ''p2p'' then handle_p2p e ev st1
                else if chat_type ev = ''group'' then handle_group e ev st1
                else \<lparr>out_state = st1, out_effects = [], out_thrown = False\<rparr>))"

section \<open>Dispatch to the external agent\<close>

text \<open>
  The parsed JSON answer of \<open>c4-receive\<close> (\<open>parseC4Response\<close> gives \<open>null\<close> for an
  empty or unparsable output), and the result of one \<open>execFile\<close> call: no error, or an
  error together with the parsed output.
\<close>

record c4_response =
  resp_ok :: "bool option"
  resp_error_message :: jsid

datatype exec_result = ExecOk | ExecError "c4_response option"

text \<open>\<open>response && response.ok === false && response.error?.message\<close>.\<close>

definition is_rejection :: "c4_response option \<Rightarrow> bool" where
  "is_rejection r =
     (case r of None \<Rightarrow> False
      | Some resp \<Rightarrow> resp_ok resp = Some False \<and> truthy (resp_error_message resp))"

definition rejection_message :: "c4_response option \<Rightarrow> string" where
  "rejection_message r = (case r of None \<Rightarrow> [] | Some resp \<Rightarrow> or_empty (resp_error_message resp))"

text \<open>
  What one call of \<open>sendToC4\<close> does: the \<open>execFile\<close> invocations it makes, how many of
  them succeeded, and the messages it passed to \<open>onReject\<close>.
\<close>

record dispatch =
  c4_calls :: nat
  c4_delivered :: nat
  c4_rejects :: "string list"

text \<open>
  \<open>sendToC4(source, endpoint, content, onReject)\<close>. \<open>first\<close> and \<open>retry\<close> are the
  results of the first \<open>execFile\<close> and of the one made two seconds later; \<open>onReject\<close>
  says whether a callback was given.
\<close>

definition sendToC4 ::
  "exec_result \<Rightarrow> exec_result \<Rightarrow> string \<Rightarrow> string \<Rightarrow> string \<Rightarrow> bool \<Rightarrow> dispatch" where
  "sendToC4 first retry source endpoint content onReject =
     (if content = [] then \<lparr>c4_calls = 0, c4_delivered = 0, c4_rejects = []\<rparr>
      else
        (case first of
           ExecOk \<Rightarrow> \<lparr>c4_calls = 1, c4_delivered = 1, c4_rejects = []\<rparr>
         | ExecError response \<Rightarrow>
             if is_rejection response
             then \<lparr>c4_calls = 1, c4_delivered = 0,
                   c4_rejects = (if onReject then [rejection_message response] else [])\<rparr>
             else
               (case retry of
                  ExecOk \<Rightarrow> \<lparr>c4_calls = 2, c4_delivered = 1, c4_rejects = []\<rparr>
                | ExecError retryResponse \<Rightarrow>
                    if is_rejection retryResponse
                    then \<lparr>c4_calls = 2, c4_delivered = 0,
                          c4_rejects = (if onReject then [rejection_message retryResponse] else [])\<rparr>
                    else \<lparr>c4_calls = 2, c4_delivered = 0, c4_rejects = []\<rparr>)))"

section \<open>Typing indicator\<close>

definition TYPING_TIMEOUT :: int where
  "TYPING_TIMEOUT = 120 * 1000"

datatype add_result = AddThrows | AddResult bool jsid

datatype remove_result = RemoveThrows | RemoveResult bool

text \<open>A settled call of \<open>removeReaction\<close> and whether it reported success.\<close>

datatype reaction_call = RemoveReaction jsid string bool

fun removal_ok :: "remove_result \<Rightarrow> bool" where
  "removal_ok RemoveThrows = False"
| "removal_ok (RemoveResult b) = b"

fun call_succeeded :: "reaction_call \<Rightarrow> bool" where
  "call_succeeded (RemoveReaction m r b) = b"

definition removals :: "reaction_call list \<Rightarrow> nat" where
  "removals cs = length (filter call_succeeded cs)"

text \<open>
  An entry of \<open>activeTypingIndicators\<close> is an object \<open>{ reactionId, timer }\<close>. A call of
  \<open>removeTypingIndicator\<close> keeps the object it read across its awaits, also after the
  entry has left the map, so the object has an identity (\<open>entry_ref\<close>). Its
  \<open>reactionId\<close> never changes and is kept by value; its \<open>timer\<close> field, which is
  reassigned, is kept per object in \<open>timer_field\<close>.
\<close>

record indicator =
  reactionId :: string
  entry_ref :: nat

text \<open>
  A pending \<open>setTimeout\<close> with the time it is due: the auto-remove timer of
  \<open>addTypingIndicator\<close>, which calls \<open>removeTypingIndicator(messageId)\<close>, or the
  deferred retry, which calls \<open>removeReaction\<close> once more and then deletes the entry.
\<close>

datatype timer = ExpiryTimer jsid int | DeferredTimer jsid string int

text \<open>
  The state of the indicator machinery: the map \<open>activeTypingIndicators\<close>, the timer
  field of every entry object, the pending timeouts by handle, the next unused handle
  or object identity, and the calls of \<open>removeReaction\<close> that have settled.
\<close>

record typing =
  active :: "jsid \<rightharpoonup> indicator"
  timer_field :: "nat \<rightharpoonup> nat"
  pending :: "nat \<rightharpoonup> timer"
  next_id :: nat
  settled :: "reaction_call list"

text \<open>
  \<open>addTypingIndicator(messageId)\<close> once \<open>addReaction\<close> has answered at time \<open>now\<close>:
  on success with a reaction id the auto-remove timer is set and the entry stored.
\<close>

definition addTypingIndicator :: "int \<Rightarrow> add_result \<Rightarrow> jsid \<Rightarrow> typing \<Rightarrow> bool \<times> typing" where
  "addTypingIndicator now res messageId S =
     (case res of
        AddThrows \<Rightarrow> (False, S)
      | AddResult success rid \<Rightarrow>
          if success \<and> truthy rid
          then (True,
                S\<lparr>active := (active S)(messageId \<mapsto>
                               \<lparr>reactionId = or_empty rid, entry_ref = Suc (next_id S)\<rparr>),
                  timer_field := (timer_field S)(Suc (next_id S) \<mapsto> next_id S),
                  pending := (pending S)(next_id S \<mapsto>
                               ExpiryTimer messageId (now + TYPING_TIMEOUT)),
                  next_id := Suc (Suc (next_id S))\<rparr>)
          else (False, S))"

text \<open>\<open>clearTimeout(handle)\<close>; clearing \<open>undefined\<close> does nothing.\<close>

definition clearTimeout :: "nat option \<Rightarrow> typing \<Rightarrow> typing" where
  "clearTimeout h S = (case h of None \<Rightarrow> S | Some k \<Rightarrow> S\<lparr>pending := (pending S)(k := None)\<rparr>)"

text \<open>
  Where a call of \<open>removeTypingIndicator\<close>, or the callback of a deferred retry, is
  suspended: awaiting the first \<open>removeReaction\<close>, waiting the second before the
  retry, awaiting the retry, awaiting the deferred \<open>removeReaction\<close>, or finished.
  Between two of these points other callbacks of the process run.
\<close>

datatype task =
    AwaitFirst jsid indicator
  | AwaitDelay jsid indicator
  | AwaitRetry jsid indicator
  | AwaitDeferred jsid string
  | Finished

text \<open>
  \<open>removeTypingIndicator(messageId)\<close> up to its first await: without an entry it
  returns; otherwise it clears the timer of the entry and calls \<open>removeReaction\<close>.
  The entry stays in the map while the call is awaited.
\<close>

definition removeTypingIndicator_begin :: "jsid \<Rightarrow> typing \<Rightarrow> task \<times> typing" where
  "removeTypingIndicator_begin messageId S =
     (case active S messageId of
        None \<Rightarrow> (Finished, S)
      | Some st \<Rightarrow> (AwaitFirst messageId st, clearTimeout (timer_field S (entry_ref st)) S))"

text \<open>
  The end of \<open>removeTypingIndicator\<close> at time \<open>now\<close>: \<open>removed\<close> deletes the entry
  of the message id; otherwise a deferred retry due ten seconds later is stored in the
  timer field of the object the call holds.
\<close>

definition settle_removal :: "int \<Rightarrow> bool \<Rightarrow> jsid \<Rightarrow> indicator \<Rightarrow> typing \<Rightarrow> typing" where
  "settle_removal now removed messageId st S =
     (if removed then S\<lparr>active := (active S)(messageId := None)\<rparr>
      else S\<lparr>timer_field := (timer_field S)(entry_ref st \<mapsto> next_id S),
             pending := (pending S)(next_id S \<mapsto>
                          DeferredTimer messageId (reactionId st) (now + 10000)),
             next_id := Suc (next_id S)\<rparr>)"

definition record_call :: "jsid \<Rightarrow> string \<Rightarrow> remove_result \<Rightarrow> typing \<Rightarrow> typing" where
  "record_call messageId rid r S =
     S\<lparr>settled := settled S @ [RemoveReaction messageId rid (removal_ok r)]\<rparr>"

text \<open>
  A suspended call resumes at time \<open>now\<close>; \<open>r\<close> is the answer of the
  \<open>removeReaction\<close> it awaited (unused when it waited for the one-second delay). A
  first call that reports failure is retried after the delay, one that throws is not.
  The deferred retry deletes the entry whatever the answer.
\<close>

fun resume :: "int \<Rightarrow> remove_result \<Rightarrow> task \<Rightarrow> typing \<Rightarrow> task \<times> typing" where
  "resume now r (AwaitFirst messageId st) S =
     (case r of
        RemoveThrows \<Rightarrow>
          (Finished, settle_removal now False messageId st
                       (record_call messageId (reactionId st) r S))
      | RemoveResult True \<Rightarrow>
          (Finished, settle_removal now True messageId st
                       (record_call messageId (reactionId st) r S))
      | RemoveResult False \<Rightarrow>
          (AwaitDelay messageId st, record_call messageId (reactionId st) r S))"
| "resume now r (AwaitDelay messageId st) S = (AwaitRetry messageId st, S)"
| "resume now r (AwaitRetry messageId st) S =
     (Finished, settle_removal now (removal_ok r) messageId st
                  (record_call messageId (reactionId st) r S))"
| "resume now r (AwaitDeferred messageId rid) S =
     (Finished, (record_call messageId rid r S)\<lparr>active := (active S)(messageId := None)\<rparr>)"
| "resume now r Finished S = (Finished, S)"

text \<open>
  The timeout with handle \<open>h\<close> coming due at time \<open>now\<close>: the auto-remove timer starts
  \<open>removeTypingIndicator\<close>, the deferred retry calls \<open>removeReaction\<close>. A timeout that
  is not pending, or not yet due, does nothing.
\<close>

definition timer_fires :: "int \<Rightarrow> nat \<Rightarrow> typing \<Rightarrow> task \<times> typing" where
  "timer_fires now h S =
     (case pending S h of
        None \<Rightarrow> (Finished, S)
      | Some (ExpiryTimer messageId due) \<Rightarrow>
          if now < due then (Finished, S)
          else removeTypingIndicator_begin messageId (S\<lparr>pending := (pending S)(h := None)\<rparr>)
      | Some (DeferredTimer messageId rid due) \<Rightarrow>
          if now < due then (Finished, S)
          else (AwaitDeferred messageId rid, S\<lparr>pending := (pending S)(h := None)\<rparr>))"

text \<open>
  \<open>removeTypingIndicator(messageId)\<close> run from its start to its end with nothing else
  running at its awaits: the first call settles at \<open>t1\<close> with \<open>r1\<close>, the retry (when
  there is one) at \<open>t2\<close> with \<open>r2\<close>.
\<close>

definition removeTypingIndicator ::
  "int \<Rightarrow> remove_result \<Rightarrow> int \<Rightarrow> remove_result \<Rightarrow> jsid \<Rightarrow> typing \<Rightarrow> typing" where
  "removeTypingIndicator t1 r1 t2 r2 messageId S =
     (case removeTypingIndicator_begin messageId S of
        (k0, S0) \<Rightarrow>
          (case resume t1 r1 k0 S0 of
             (k1, S1) \<Rightarrow>
               (case resume t2 r2 k1 S1 of
                  (k2, S2) \<Rightarrow> snd (resume t2 r2 k2 S2))))"

text \<open>
  Two completion signals of which the second starts while the first still awaits its
  \<open>removeReaction\<close>: both calls begin, then the first settles at \<open>t1\<close> with \<open>r1\<close>
  and the second at \<open>t2\<close> with \<open>r2\<close>.
\<close>

definition overlapping_completions ::
  "int \<Rightarrow> remove_result \<Rightarrow> int \<Rightarrow> remove_result \<Rightarrow> jsid \<Rightarrow> typing \<Rightarrow> typing" where
  "overlapping_completions t1 r1 t2 r2 messageId S =
     (case removeTypingIndicator_begin messageId S of
        (ka, Sa) \<Rightarrow>
          (case removeTypingIndicator_begin messageId Sa of
             (kb, Sb) \<Rightarrow>
               (case resume t1 r1 ka Sb of
                  (ka', Sc) \<Rightarrow> snd (resume t2 r2 kb Sc))))"

text \<open>
  The timeout \<open>h\<close> coming due at \<open>t3\<close> and what it starts run to its end: a first call
  settling at \<open>t3\<close> with \<open>c1\<close> and a retry, when there is one, a second later with
  \<open>c2\<close>.
\<close>

definition timer_run :: "int \<Rightarrow> nat \<Rightarrow> remove_result \<Rightarrow> remove_result \<Rightarrow> typing \<Rightarrow> typing" where
  "timer_run t3 h c1 c2 S =
     (case timer_fires t3 h S of
        (k0, S0) \<Rightarrow>
          (case resume t3 c1 k0 S0 of
             (k1, S1) \<Rightarrow>
               (case resume (t3 + 1000) c2 k1 S1 of
                  (k2, S2) \<Rightarrow> snd (resume (t3 + 1000) c2 k2 S2))))"

text \<open>
  Two completion signals one after the other, each run to its end, and then the
  timeout held by the entry object \<open>ref\<close> coming due.
\<close>

definition complete_twice_then_timer ::
  "int \<Rightarrow> remove_result \<Rightarrow> remove_result \<Rightarrow> int \<Rightarrow> remove_result \<Rightarrow> remove_result
     \<Rightarrow> int \<Rightarrow> remove_result \<Rightarrow> remove_result \<Rightarrow> nat \<Rightarrow> jsid \<Rightarrow> typing \<Rightarrow> typing" where
  "complete_twice_then_timer t1 a1 a2 t2 b1 b2 t3 c1 c2 ref messageId S =
     (let S' = removeTypingIndicator t2 b1 (t2 + 1000) b2 messageId
                 (removeTypingIndicator t1 a1 (t1 + 1000) a2 messageId S)
      in case timer_field S' ref of
           None \<Rightarrow> S'
         | Some h \<Rightarrow> timer_run t3 h c1 c2 S')"

text \<open>
  The entry object \<open>st\<close> of a message, followed through sequential runs: while the
  entry is in the map no removal has succeeded since the count \<open>n\<close> and the timeout the
  object holds, if pending, is one of this message; once the entry has left the map at
  most one removal has succeeded and the timeout the object holds is not pending.
\<close>

definition tracked :: "jsid \<Rightarrow> indicator \<Rightarrow> nat \<Rightarrow> typing \<Rightarrow> bool" where
  "tracked mid st n S =
     (case active S mid of
        Some st' \<Rightarrow>
          st' = st \<and> removals (settled S) = n
          \<and> (case timer_field S (entry_ref st) of
                None \<Rightarrow> True
              | Some h \<Rightarrow>
                  (case pending S h of
                     None \<Rightarrow> True
                   | Some (ExpiryTimer m due) \<Rightarrow> m = mid
                   | Some (DeferredTimer m r due) \<Rightarrow> m = mid \<and> r = reactionId st))
      | None \<Rightarrow>
          removals (settled S) \<le> Suc n
          \<and> (case timer_field S (entry_ref st) of
                None \<Rightarrow> True
              | Some h \<Rightarrow> pending S h = None))"

section \<open>Runs of the service\<close>

text \<open>The number of remote history fetches among the calls of a run.\<close>

definition fetches :: "effect list \<Rightarrow> nat" where
  "fetches fx = length (filter is_fetch fx)"

text \<open>
  The state after handling a sequence of events, each with the answers its
  collaborators gave.
\<close>

fun run_events :: "(env \<times> event) list \<Rightarrow> state \<Rightarrow> state" where
  "run_events [] st = st"
| "run_events ((e, ev) # rest) st = run_events rest (out_state (handleMessage e ev st))"

section \<open>Concrete inputs\<close>

text \<open>
  \<open>DEFAULT_CONFIG\<close> of \<open>lib/config.js\<close> (no owner bound, group policy
  \<open>allowlist\<close>, no groups, ten context messages), a process that has just started on
  it, collaborators that answer plainly, and a first direct message.
\<close>

definition DEFAULT_CONFIG :: config where
  "DEFAULT_CONFIG =
     \<lparr>owner = Some \<lparr>bound = False, owner_user_id = Some [], owner_open_id = Some [],
                     owner_name = []\<rparr>,
      dmPolicy = None, dmAllowFrom = None, groupPolicy = Some ''allowlist'',
      groups = Map.empty, allowed_groups = [], smart_groups = [],
      context_messages = Some 10, cfg_app_id = None, cfg_bot_open_id = None\<rparr>"

definition fresh_state :: state where
  "fresh_state =
     \<lparr>cfg = DEFAULT_CONFIG, disk = DEFAULT_CONFIG, processedMessages = [],
      chatHistories = Map.empty, lazyLoadedContainers = {}, preloadedGroups = {},
      groupCursors = Map.empty, botOpenId = ''ou_bot'', botAppId = ''cli_bot''\<rparr>"

definition plain_env :: "bool \<Rightarrow> fetch_result \<Rightarrow> env" where
  "plain_env w f =
     \<lparr>clock = 1000, write_ok = w, resolveUserName = (\<lambda>u. ''Alice''),
      resolveMentions = (\<lambda>t. t), listMessages = (\<lambda>c t. f),
      fetchQuotedMessage = (\<lambda>p. None), download_ok = (\<lambda>k. True)\<rparr>"

definition dm_event :: event where
  "dm_event =
     \<lparr>sender_open_id = Some ''ou_alice'', sender_app_id = None,
      sender_user_id = Some ''u_alice'', chat_id = ''oc_dm'', ev_message_id = Some ''om_1'',
      chat_type = ''p2p'', root_id = None, parent_id = None, thread_id = None,
      mentions = None, ev_text = ''hello'', imageKeys = [], fileKey = None, fileName = [],
      ev_timestamp = None\<rparr>"

text \<open>A configuration with Alice bound as owner, and a group message of hers.\<close>

definition owned_config :: "string \<Rightarrow> config" where
  "owned_config policy =
     DEFAULT_CONFIG\<lparr>owner := Some \<lparr>bound = True, owner_user_id = Some ''u_alice'',
                                     owner_open_id = Some ''ou_alice'', owner_name = ''Alice''\<rparr>,
                    groupPolicy := Some policy\<rparr>"

definition bot_mention :: mention where
  "bot_mention =
     \<lparr>mention_open_id = Some ''ou_bot'', mention_user_id = None, mention_app_id = None,
      mention_key = Some ''@_user_1'', mention_name = Some ''bot''\<rparr>"

definition group_event :: "mention list option \<Rightarrow> event" where
  "group_event ms = dm_event\<lparr>chat_id := ''oc_group'', chat_type := ''group'', mentions := ms\<rparr>"

definition sample_entry :: "string \<Rightarrow> history_entry" where
  "sample_entry mid =
     \<lparr>timestamp = 0, message_id = Some mid, user_id = Some ''u_alice'', open_id = None,
      user_name = ''Alice'', entry_text = ''hi''\<rparr>"

text \<open>Two messages of a remote history, newest first as the API returns them.\<close>

definition remote_sample :: "remote_message list" where
  "remote_sample =
     [\<lparr>createTime = 20, remote_id = Some ''om_b'', remote_sender = Some ''u_bob'',
       remote_text = ''second''\<rparr>,
      \<lparr>createTime = 10, remote_id = Some ''om_a'', remote_sender = Some ''u_alice'',
       remote_text = ''first''\<rparr>]"

text \<open>The indicator machinery with no entry, no timeout and no call made.\<close>

definition idle_typing :: typing where
  "idle_typing =
     \<lparr>active = Map.empty, timer_field = Map.empty, pending = Map.empty, next_id = 0,
      settled = []\<rparr>"

section \<open>Properties of the dedup ledger\<close>

lemma ledger_has_iff: "ledger_has k m \<longleftrightarrow> k \<in> fst ` set m"
  by (simp add: ledger_has_def map_of_eq_None_iff)

lemma evict_expired_keeps:
  "(e, t0) \<in> set m \<Longrightarrow> now - t0 \<le> DEDUP_TTL \<Longrightarrow> (e, t0) \<in> set (evict_expired now m)"
  by (simp add: evict_expired_def)

lemma evict_expired_subset: "set (evict_expired now m) \<subseteq> set m"
  by (auto simp: evict_expired_def)

lemma apply_ledger_op_keeps:
  assumes "(e, t0) \<in> set m" and "op_time x - t0 \<le> DEDUP_TTL"
  shows "(e, t0) \<in> set (apply_ledger_op x m)"
proof (cases x)
  case (Check now k)
  with assms show ?thesis
    by (auto simp: isDuplicate_def Let_def intro: evict_expired_keeps split: option.splits)
next
  case (Sweep now)
  with assms show ?thesis
    by (simp add: dedupCleanup_def evict_expired_keeps)
qed

lemma run_ledger_ops_keeps:
  "(e, t0) \<in> set m \<Longrightarrow> list_all (\<lambda>x. op_time x - t0 \<le> DEDUP_TTL) ops
     \<Longrightarrow> (e, t0) \<in> set (run_ledger_ops ops m)"
  by (induction ops arbitrary: m) (auto intro: apply_ledger_op_keeps)

lemma stamped_iff: "stamped e t0 m \<longleftrightarrow> (\<forall>ts. (e, ts) \<in> set m \<longrightarrow> ts = t0)"
  by (auto simp: stamped_def list_all_iff)

lemma stamped_evict: "stamped e t0 m \<Longrightarrow> stamped e t0 (evict_expired now m)"
  using evict_expired_subset [of now m] by (auto simp: stamped_iff)

lemma stamped_apply_other:
  assumes "stamped e t0 m" and "\<not> op_checks e x"
  shows "stamped e t0 (apply_ledger_op x m)"
proof (cases x)
  case (Check now k)
  have "stamped e t0 (m @ [(k', now)])" if "k' \<noteq> e" for k'
    using assms(1) that by (auto simp: stamped_iff)
  then have "stamped e t0 (evict_expired t (m @ [(k', now)]))" if "k' \<noteq> e" for k' t
    using that by (simp add: stamped_evict)
  with Check assms \<open>\<And>k'. k' \<noteq> e \<Longrightarrow> stamped e t0 (m @ [(k', now)])\<close> show ?thesis
    by (auto simp: isDuplicate_def Let_def split: option.splits)
next
  case (Sweep now)
  with assms show ?thesis by (simp add: dedupCleanup_def stamped_evict)
qed

lemma stamped_apply_present:
  assumes "stamped e t0 m" and "(e, t0) \<in> set m"
  shows "stamped e t0 (apply_ledger_op x m)"
proof (cases "op_checks e x")
  case False
  with assms show ?thesis by (simp add: stamped_apply_other)
next
  case True
  then obtain now where x: "x = Check now (Some e)" by (cases x) auto
  from assms(2) have "ledger_has e m" by (force simp: ledger_has_iff)
  with assms(1) x show ?thesis by (auto simp: isDuplicate_def)
qed

lemma run_ledger_ops_stamped_window:
  "stamped e t0 m \<Longrightarrow> (e, t0) \<in> set m
     \<Longrightarrow> list_all (\<lambda>x. op_time x - t0 \<le> DEDUP_TTL) ops
     \<Longrightarrow> stamped e t0 (run_ledger_ops ops m)"
proof (induction ops arbitrary: m)
  case Nil
  then show ?case by simp
next
  case (Cons x xs)
  then show ?case
    by (auto intro!: Cons.IH stamped_apply_present apply_ledger_op_keeps)
qed

lemma run_ledger_ops_stamped_other:
  "stamped e t0 m \<Longrightarrow> list_all (\<lambda>x. \<not> op_checks e x) ops
     \<Longrightarrow> stamped e t0 (run_ledger_ops ops m)"
  by (induction ops arbitrary: m) (auto intro: stamped_apply_other)

lemma evict_expired_removes:
  "stamped e t0 m \<Longrightarrow> DEDUP_TTL < now - t0 \<Longrightarrow> \<not> ledger_has e (evict_expired now m)"
  by (auto simp: ledger_has_iff stamped_iff evict_expired_def)

lemma isDuplicate_first:
  assumes "e \<noteq> []" and "\<not> ledger_has e m0"
  shows "fst (isDuplicate t0 (Some e) m0) = False"
    and "(e, t0) \<in> set (snd (isDuplicate t0 (Some e) m0))"
    and "stamped e t0 (snd (isDuplicate t0 (Some e) m0))"
proof -
  let ?m1 = "m0 @ [(e, t0)]"
  have in1: "(e, t0) \<in> set ?m1" by simp
  have st1: "stamped e t0 ?m1"
    using assms(2) by (force simp: stamped_iff ledger_has_iff)
  show "fst (isDuplicate t0 (Some e) m0) = False"
    using assms by (simp add: isDuplicate_def Let_def)
  show "(e, t0) \<in> set (snd (isDuplicate t0 (Some e) m0))"
    using assms evict_expired_keeps [OF in1, of t0]
    by (simp add: isDuplicate_def Let_def DEDUP_TTL_def)
  show "stamped e t0 (snd (isDuplicate t0 (Some e) m0))"
    using assms st1 by (simp add: isDuplicate_def Let_def stamped_evict)
qed

text \<open>
  C4. For a non-empty message id \<open>e\<close> that the ledger has not seen, the first check
  (at time \<open>t0\<close>) returns false and records \<open>e\<close>. Whatever other checks and cleanups
  run while no more than the TTL has passed since \<open>t0\<close>, a second check of \<open>e\<close>
  returns true. Once more than the TTL has passed and the periodic cleanup has run
  (other traffic in between never checking \<open>e\<close>), a third check returns false again.
\<close>

theorem dedup_false_true_false:
  assumes "e \<noteq> []" and "\<not> ledger_has e m0"
    and "list_all (\<lambda>x. op_time x - t0 \<le> DEDUP_TTL) ops1"
    and "list_all (\<lambda>x. \<not> op_checks e x) ops2"
    and "DEDUP_TTL < t2 - t0"
  shows "fst (isDuplicate t0 (Some e) m0) = False
     \<and> ledger_has e (snd (isDuplicate t0 (Some e) m0))
     \<and> fst (isDuplicate t1 (Some e)
              (run_ledger_ops ops1 (snd (isDuplicate t0 (Some e) m0)))) = True
     \<and> fst (isDuplicate t3 (Some e)
              (dedupCleanup t2 (run_ledger_ops ops2
                 (snd (isDuplicate t1 (Some e)
                    (run_ledger_ops ops1 (snd (isDuplicate t0 (Some e) m0)))))))) = False"
proof -
  let ?m1 = "snd (isDuplicate t0 (Some e) m0)"
  let ?m1' = "run_ledger_ops ops1 ?m1"
  let ?m2 = "snd (isDuplicate t1 (Some e) ?m1')"
  let ?m3 = "dedupCleanup t2 (run_ledger_ops ops2 ?m2)"
  note first = isDuplicate_first [OF assms(1,2), of t0]
  have has1: "ledger_has e ?m1"
    using first(2) by (force simp: ledger_has_iff)
  have in1': "(e, t0) \<in> set ?m1'"
    using first(2) assms(3) by (rule run_ledger_ops_keeps)
  then have has1': "ledger_has e ?m1'" by (force simp: ledger_has_iff)
  have st1': "stamped e t0 ?m1'"
    using first(3) first(2) assms(3) by (rule run_ledger_ops_stamped_window)
  have second: "isDuplicate t1 (Some e) ?m1' = (True, ?m1')"
    using assms(1) has1' by (simp add: isDuplicate_def)
  then have st2: "stamped e t0 ?m2" using st1' by simp
  have "stamped e t0 (run_ledger_ops ops2 ?m2)"
    using st2 assms(4) by (rule run_ledger_ops_stamped_other)
  then have gone: "\<not> ledger_has e ?m3"
    using assms(5) by (simp add: dedupCleanup_def evict_expired_removes)
  have third: "fst (isDuplicate t3 (Some e) ?m3) = False"
    using assms(1) gone by (simp add: isDuplicate_def Let_def)
  show ?thesis using first(1) has1 second third by simp
qed

theorem dedup_false_true_false_witness:
  "''om_1'' \<noteq> [] \<and> \<not> ledger_has ''om_1'' [(''om_0'', 0)]
     \<and> list_all (\<lambda>x. op_time x - 1000 \<le> DEDUP_TTL) [Check 2000 (Some ''om_2''), Sweep 300000]
     \<and> list_all (\<lambda>x. \<not> op_checks ''om_1'' x) [Check 250000 (Some ''om_3'')]
     \<and> DEDUP_TTL < 301001 - 1000
     \<and> fst (isDuplicate 1000 (Some ''om_1'') [(''om_0'', 0)]) = False
     \<and> ledger_has ''om_1'' (snd (isDuplicate 1000 (Some ''om_1'') [(''om_0'', 0)]))
     \<and> fst (isDuplicate 200000 (Some ''om_1'')
              (run_ledger_ops [Check 2000 (Some ''om_2''), Sweep 300000]
                 (snd (isDuplicate 1000 (Some ''om_1'') [(''om_0'', 0)])))) = True
     \<and> fst (isDuplicate 400000 (Some ''om_1'')
              (dedupCleanup 301001 (run_ledger_ops [Check 250000 (Some ''om_3'')]
                 (snd (isDuplicate 200000 (Some ''om_1'')
                    (run_ledger_ops [Check 2000 (Some ''om_2''), Sweep 300000]
                       (snd (isDuplicate 1000 (Some ''om_1'') [(''om_0'', 0)])))))))) = False"
  using dedup_false_true_false [of "''om_1''" "[(''om_0'', 0)]" 1000
      "[Check 2000 (Some ''om_2''), Sweep 300000]" "[Check 250000 (Some ''om_3'')]"
      301001 200000 400000]
  by (simp add: ledger_has_def DEDUP_TTL_def)

section \<open>Properties of the history cache\<close>

lemma findIndex_None: "findIndex P xs = None \<longleftrightarrow> find P xs = None"
  by (induction xs) auto

lemma findIndex_Some:
  "findIndex P xs = Some i \<Longrightarrow> i < length xs \<and> find P xs = Some (xs ! i)
     \<and> xs ! i # (take i xs @ drop (Suc i) xs) = xs ! i # remove1 (xs ! i) xs"
proof (induction xs arbitrary: i)
  case Nil
  then show ?case by simp
next
  case (Cons x xs)
  show ?case
  proof (cases "P x")
    case True
    with Cons.prems show ?thesis by simp
  next
    case False
    with Cons.prems obtain j where j: "findIndex P xs = Some j" "i = Suc j" by auto
    from Cons.IH [OF j(1)] have ih: "j < length xs" "find P xs = Some (xs ! j)"
      "take j xs @ drop (Suc j) xs = remove1 (xs ! j) xs" by auto
    from ih(1,2) have "P (xs ! j)" by (metis find_Some_iff)
    with False have "x \<noteq> xs ! j" by auto
    with False j ih show ?thesis by simp
  qed
qed

text \<open>
  C8. For a root id that is present (a non-empty string): when the window holds a
  message with that id, the result is the first such message followed by the window
  without it; when the window holds none but the full buffer of the key does, the
  buffer's first such message is put in front of the window; when neither holds one
  (or the key has no buffer), the window comes back unchanged. In every case the
  function returns a window: it has no failing branch.
\<close>

theorem pinRootMessage_cases:
  assumes "truthy rootId"
  shows "(\<forall>r. find (\<lambda>m. message_id m = rootId) w = Some r
            \<longrightarrow> pinRootMessage H (Some w) rootId k = Some (r # remove1 r w))
     \<and> (\<forall>full r. find (\<lambda>m. message_id m = rootId) w = None \<and> H k = Some full
            \<and> find (\<lambda>m. message_id m = rootId) full = Some r
            \<longrightarrow> pinRootMessage H (Some w) rootId k = Some (r # w))
     \<and> (find (\<lambda>m. message_id m = rootId) w = None
            \<and> (case H k of None \<Rightarrow> True
                | Some full \<Rightarrow> find (\<lambda>m. message_id m = rootId) full = None)
            \<longrightarrow> pinRootMessage H (Some w) rootId k = Some w)
     \<and> (\<exists>res. pinRootMessage H (Some w) rootId k = Some res)"
proof (intro conjI allI impI)
  fix r
  assume f: "find (\<lambda>m. message_id m = rootId) w = Some r"
  then obtain i where i: "findIndex (\<lambda>m. message_id m = rootId) w = Some i"
    using findIndex_None [of "\<lambda>m. message_id m = rootId" w] by (cases "findIndex (\<lambda>m. message_id m = rootId) w") auto
  from findIndex_Some [OF i] f have r: "w ! i = r" "i < length w"
    "r # (take i w @ drop (Suc i) w) = r # remove1 r w" by auto
  show "pinRootMessage H (Some w) rootId k = Some (r # remove1 r w)"
  proof (cases "i > 0")
    case True
    with assms i r show ?thesis by (simp add: pinRootMessage_def)
  next
    case False
    with r have "w = r # tl w" by (cases w) auto
    then have "remove1 r w = tl w" by (metis remove1.simps(2))
    with False assms i \<open>w = r # tl w\<close> show ?thesis by (simp add: pinRootMessage_def)
  qed
next
  fix full r
  assume "find (\<lambda>m. message_id m = rootId) w = None \<and> H k = Some full
            \<and> find (\<lambda>m. message_id m = rootId) full = Some r"
  then have "findIndex (\<lambda>m. message_id m = rootId) w = None" and "H k = Some full"
    and "find (\<lambda>m. message_id m = rootId) full = Some r"
    by (simp_all add: findIndex_None)
  with assms show "pinRootMessage H (Some w) rootId k = Some (r # w)"
    by (simp add: pinRootMessage_def)
next
  assume "find (\<lambda>m. message_id m = rootId) w = None
            \<and> (case H k of None \<Rightarrow> True
                | Some full \<Rightarrow> find (\<lambda>m. message_id m = rootId) full = None)"
  then have "findIndex (\<lambda>m. message_id m = rootId) w = None"
    and "case H k of None \<Rightarrow> True
         | Some full \<Rightarrow> find (\<lambda>m. message_id m = rootId) full = None"
    by (simp_all add: findIndex_None)
  with assms show "pinRootMessage H (Some w) rootId k = Some w"
    by (auto simp: pinRootMessage_def split: option.splits)
next
  show "\<exists>res. pinRootMessage H (Some w) rootId k = Some res"
    by (simp add: pinRootMessage_def split: option.splits)
qed

theorem pinRootMessage_cases_witness:
  "truthy (Some ''om_b'')
   \<and> pinRootMessage Map.empty (Some [sample_entry ''om_a'', sample_entry ''om_b'', sample_entry ''om_c''])
        (Some ''om_b'') ''oc_group:omt_1''
      = Some [sample_entry ''om_b'', sample_entry ''om_a'', sample_entry ''om_c'']
   \<and> pinRootMessage [''oc_group:omt_1'' \<mapsto> [sample_entry ''om_b'', sample_entry ''om_c'', sample_entry ''om_d'']]
        (Some [sample_entry ''om_c'', sample_entry ''om_d'']) (Some ''om_b'') ''oc_group:omt_1''
      = Some [sample_entry ''om_b'', sample_entry ''om_c'', sample_entry ''om_d'']
   \<and> pinRootMessage [''oc_group:omt_1'' \<mapsto> [sample_entry ''om_c'', sample_entry ''om_d'']]
        (Some [sample_entry ''om_c'', sample_entry ''om_d'']) (Some ''om_b'') ''oc_group:omt_1''
      = Some [sample_entry ''om_c'', sample_entry ''om_d'']"
  using pinRootMessage_cases [of "Some ''om_b''" "[sample_entry ''om_a'', sample_entry ''om_b'', sample_entry ''om_c'']"
      Map.empty "''oc_group:omt_1''"]
    pinRootMessage_cases [of "Some ''om_b''" "[sample_entry ''om_c'', sample_entry ''om_d'']"
      "[''oc_group:omt_1'' \<mapsto> [sample_entry ''om_b'', sample_entry ''om_c'', sample_entry ''om_d'']]" "''oc_group:omt_1''"]
    pinRootMessage_cases [of "Some ''om_b''" "[sample_entry ''om_c'', sample_entry ''om_d'']"
      "[''oc_group:omt_1'' \<mapsto> [sample_entry ''om_c'', sample_entry ''om_d'']]" "''oc_group:omt_1''"]
  by (simp add: truthy_def sample_entry_def)

lemma getHistoryKey_neq: "truthy threadId \<Longrightarrow> getHistoryKey chatId threadId \<noteq> chatId"
  by (simp add: getHistoryKey_def)

lemma recordHistoryEntry_other:
  "k' \<noteq> k \<Longrightarrow> recordHistoryEntry c k entry H k' = H k'"
  by (simp add: recordHistoryEntry_def Let_def)

lemma record_many_other:
  "k' \<noteq> k \<Longrightarrow> foldl (\<lambda>H x. recordHistoryEntry c k x H) H entries k' = H k'"
  by (induction entries arbitrary: H) (simp_all add: recordHistoryEntry_other)

lemma getInMemoryContext_cong:
  "H k = H' k \<Longrightarrow> getInMemoryContext c H k cur = getInMemoryContext c H' k cur"
  by (simp add: getInMemoryContext_def)

lemma logMessage_thread_other:
  "truthy threadId \<Longrightarrow> k \<noteq> getHistoryKey chatId threadId \<Longrightarrow>
   chatHistories (snd (logMessage e chatType chatId userId openId txt messageId ts threadId st)) k
     = chatHistories st k"
  by (simp add: logMessage_def Let_def recordHistoryEntry_other)

text \<open>
  C6. For a chat and a thread of it (a non-empty thread id): recording any number of
  entries under the thread's key \<open>chatId:threadId\<close> leaves every context read on the
  chat's own key as it was, and recording under the chat's key leaves every read on
  the thread's key as it was. \<open>logMessage\<close> for a message that carries the thread id
  changes no buffer but the thread's, so a read on the chat's key returns what it
  returned before.
\<close>

theorem thread_context_isolation:
  assumes "truthy threadId"
  shows "getInMemoryContext c
           (foldl (\<lambda>H x. recordHistoryEntry c (getHistoryKey chatId threadId) x H) H entries)
           chatId cur
         = getInMemoryContext c H chatId cur
     \<and> getInMemoryContext c
           (foldl (\<lambda>H x. recordHistoryEntry c chatId x H) H entries)
           (getHistoryKey chatId threadId) cur
         = getInMemoryContext c H (getHistoryKey chatId threadId) cur
     \<and> (\<forall>k. k \<noteq> getHistoryKey chatId threadId \<longrightarrow>
           chatHistories (snd (logMessage e chatType chatId userId openId txt messageId ts
                                 threadId st)) k
           = chatHistories st k)
     \<and> getInMemoryContext (cfg st)
           (chatHistories (snd (logMessage e chatType chatId userId openId txt messageId ts
                                  threadId st))) chatId cur
         = getInMemoryContext (cfg st) (chatHistories st) chatId cur"
proof -
  let ?tk = "getHistoryKey chatId threadId"
  have ne: "?tk \<noteq> chatId" using assms by (rule getHistoryKey_neq)
  have a: "foldl (\<lambda>H x. recordHistoryEntry c ?tk x H) H entries chatId = H chatId"
    using ne by (simp add: record_many_other)
  have b: "foldl (\<lambda>H x. recordHistoryEntry c chatId x H) H entries ?tk = H ?tk"
    using ne by (simp add: record_many_other)
  have c: "chatHistories (snd (logMessage e chatType chatId userId openId txt messageId ts
                                 threadId st)) k = chatHistories st k"
    if "k \<noteq> ?tk" for k
    using assms that by (rule logMessage_thread_other)
  have "getInMemoryContext c (foldl (\<lambda>H x. recordHistoryEntry c ?tk x H) H entries) chatId cur
          = getInMemoryContext c H chatId cur"
    using a by (rule getInMemoryContext_cong)
  moreover have "getInMemoryContext c (foldl (\<lambda>H x. recordHistoryEntry c chatId x H) H entries) ?tk cur
          = getInMemoryContext c H ?tk cur"
    using b by (rule getInMemoryContext_cong)
  moreover have "getInMemoryContext (cfg st)
           (chatHistories (snd (logMessage e chatType chatId userId openId txt messageId ts
                                  threadId st))) chatId cur
         = getInMemoryContext (cfg st) (chatHistories st) chatId cur"
    using c [of chatId] ne by (intro getInMemoryContext_cong) simp
  ultimately show ?thesis using c by blast
qed

theorem thread_context_isolation_witness:
  "truthy (Some ''omt_1'')
   \<and> getInMemoryContext DEFAULT_CONFIG
        (foldl (\<lambda>H x. recordHistoryEntry DEFAULT_CONFIG (getHistoryKey ''oc_group'' (Some ''omt_1'')) x H)
           [''oc_group'' \<mapsto> [sample_entry ''om_0'']] [sample_entry ''om_5'', sample_entry ''om_6''])
        ''oc_group'' (Some ''om_9'')
      = [sample_entry ''om_0'']
   \<and> getInMemoryContext DEFAULT_CONFIG
        (foldl (\<lambda>H x. recordHistoryEntry DEFAULT_CONFIG ''oc_group'' x H)
           [''oc_group:omt_1'' \<mapsto> [sample_entry ''om_5'']] [sample_entry ''om_0''])
        (getHistoryKey ''oc_group'' (Some ''omt_1'')) (Some ''om_9'')
      = [sample_entry ''om_5'']
   \<and> chatHistories (snd (logMessage (plain_env True FetchFailed) ''group'' ''oc_group''
         (Some ''u_alice'') (Some ''ou_alice'') ''hello'' (Some ''om_7'') None (Some ''omt_1'')
         (fresh_state\<lparr>chatHistories := [''oc_group'' \<mapsto> [sample_entry ''om_0'']]\<rparr>))) ''oc_group''
      = Some [sample_entry ''om_0'']"
  using thread_context_isolation [of "Some ''omt_1''" DEFAULT_CONFIG "''oc_group''"
      "[''oc_group'' \<mapsto> [sample_entry ''om_0'']]" "[sample_entry ''om_5'', sample_entry ''om_6'']"
      "Some ''om_9''"]
    thread_context_isolation [of "Some ''omt_1''" DEFAULT_CONFIG "''oc_group''"
      "[''oc_group:omt_1'' \<mapsto> [sample_entry ''om_5'']]" "[sample_entry ''om_0'']"
      "Some ''om_9''"]
    thread_context_isolation [of "Some ''omt_1''" _ "''oc_group''" _ _ _ "plain_env True FetchFailed" "''group''"
      "Some ''u_alice''" "Some ''ou_alice''" "''hello''" "Some ''om_7''" None
      "fresh_state\<lparr>chatHistories := [''oc_group'' \<mapsto> [sample_entry ''om_0'']]\<rparr>"]
  by (simp add: truthy_def getHistoryKey_def or_empty_def getInMemoryContext_def
      getGroupHistoryLimit_def resolveGroupConfig_def DEFAULT_CONFIG_def num_or_def
      baseChatId_def js_slice_from_def sample_entry_def DEFAULT_HISTORY_LIMIT_def Let_def
      fresh_state_def)

section \<open>Properties of the lazy backfill\<close>

text \<open>No step of the message handler removes a key from the set of lazily loaded containers.\<close>

lemma logMessage_lazy:
  "lazyLoadedContainers (snd (logMessage e ct c u o' t m ts th st)) = lazyLoadedContainers st"
  by (simp add: logMessage_def Let_def)

lemma getContextWithFallback_lazy:
  "lazyLoadedContainers st \<subseteq> lazyLoadedContainers (snd (snd (getContextWithFallback e cid cur ct k lim st)))"
  by (auto simp: getContextWithFallback_def Let_def split: fetch_result.splits)

lemma thread_or_quote_lazy:
  "lazyLoadedContainers st \<subseteq> lazyLoadedContainers (snd (snd (snd (thread_or_quote e ev lim st))))"
  using getContextWithFallback_lazy
  by (auto simp: thread_or_quote_def Let_def split: prod.splits) (metis snd_conv subsetD)

lemma bindOwner_lazy:
  "lazyLoadedContainers (snd (bindOwner e u o' st)) = lazyLoadedContainers st"
  by (simp add: bindOwner_def saveConfig_def Let_def)

lemma p2p_allowed_lazy:
  "lazyLoadedContainers st \<subseteq> lazyLoadedContainers (out_state (p2p_allowed e ev st fx))"
proof -
  obtain fxL st1 where l: "logMessage e (chat_type ev) (chat_id ev) (sender_user_id ev) (sender_open_id ev)
                (logText_of ev) (ev_message_id ev) (ev_timestamp ev) (or_null (thread_id ev)) st = (fxL, st1)"
    by (cases "logMessage e (chat_type ev) (chat_id ev) (sender_user_id ev) (sender_open_id ev)
                (logText_of ev) (ev_message_id ev) (ev_timestamp ev) (or_null (thread_id ev)) st")
  have 1: "lazyLoadedContainers st1 = lazyLoadedContainers st"
    using logMessage_lazy [of e "chat_type ev" "chat_id ev" "sender_user_id ev" "sender_open_id ev"
                "logText_of ev" "ev_message_id ev" "ev_timestamp ev" "or_null (thread_id ev)" st] l by simp
  obtain tc q fxC st2 where t: "thread_or_quote e ev
                     (num_or (context_messages (cfg st1)) DEFAULT_HISTORY_LIMIT) st1 = (tc, q, fxC, st2)"
    by (metis prod_cases4)
  have 2: "lazyLoadedContainers st1 \<subseteq> lazyLoadedContainers st2"
    using thread_or_quote_lazy [of st1 e ev "num_or (context_messages (cfg st1)) DEFAULT_HISTORY_LIMIT"] t by simp
  show ?thesis using l t 1 2 by (simp add: p2p_allowed_def)
qed

lemma handle_p2p_lazy:
  "lazyLoadedContainers st \<subseteq> lazyLoadedContainers (out_state (handle_p2p e ev st))"
proof (cases "bindOwner e (sender_user_id ev) (sender_open_id ev) st")
  case (Pair r st1)
  have 1: "lazyLoadedContainers st1 = lazyLoadedContainers st"
    using bindOwner_lazy [of e "sender_user_id ev" "sender_open_id ev" st] Pair by simp
  show ?thesis
    using Pair 1 p2p_allowed_lazy [of st1 e ev] p2p_allowed_lazy [of st e ev]
    by (auto simp: handle_p2p_def split: sum.splits)
qed

lemma group_forward_lazy:
  "lazyLoadedContainers st \<subseteq> lazyLoadedContainers (out_state (group_forward e ev st))"
proof -
  obtain fxL st1 where l: "logMessage e (chat_type ev) (chat_id ev) (sender_user_id ev) (sender_open_id ev)
                (logText_of ev) (ev_message_id ev) (ev_timestamp ev) (or_null (thread_id ev)) st = (fxL, st1)"
    by (cases "logMessage e (chat_type ev) (chat_id ev) (sender_user_id ev) (sender_open_id ev)
                (logText_of ev) (ev_message_id ev) (ev_timestamp ev) (or_null (thread_id ev)) st")
  have 1: "lazyLoadedContainers st1 = lazyLoadedContainers st"
    using logMessage_lazy [of e "chat_type ev" "chat_id ev" "sender_user_id ev" "sender_open_id ev"
                "logText_of ev" "ev_message_id ev" "ev_timestamp ev" "or_null (thread_id ev)" st] l by simp
  obtain fxP st2 where p: "preloadGroupMembers (chat_id ev) st1 = (fxP, st2)"
    by (cases "preloadGroupMembers (chat_id ev) st1")
  then have 2: "lazyLoadedContainers st2 = lazyLoadedContainers st1"
    by (auto simp: preloadGroupMembers_def split: if_splits)
  obtain cm fxG st3 where g: "getGroupContext e (chat_id ev) (ev_message_id ev) st2 = (cm, fxG, st3)"
    by (metis prod_cases3)
  have 3: "lazyLoadedContainers st2 \<subseteq> lazyLoadedContainers st3"
    using getContextWithFallback_lazy [of st2 e "chat_id ev" "ev_message_id ev" Chat "chat_id ev" None] g
    by (simp add: getGroupContext_def)
  let ?st4 = "st3\<lparr>groupCursors := (groupCursors st3)(chat_id ev \<mapsto> ev_message_id ev)\<rparr>"
  obtain tc q fxC st5 where t: "thread_or_quote e ev
                     (getGroupHistoryLimit (cfg ?st4) (chat_id ev)) ?st4 = (tc, q, fxC, st5)"
    by (metis prod_cases4)
  have 4: "lazyLoadedContainers ?st4 \<subseteq> lazyLoadedContainers st5"
    using thread_or_quote_lazy [of ?st4 e ev "getGroupHistoryLimit (cfg ?st4) (chat_id ev)"] t by simp
  show ?thesis using l p g t 1 2 3 4 by (auto simp: group_forward_def Let_def)
qed

lemma handle_group_lazy:
  "lazyLoadedContainers st \<subseteq> lazyLoadedContainers (out_state (handle_group e ev st))"
  using group_forward_lazy [of st e ev]
    logMessage_lazy [of e "chat_type ev" "chat_id ev" "sender_user_id ev" "sender_open_id ev"
                "logText_of ev" "ev_message_id ev" "ev_timestamp ev" "or_null (thread_id ev)" st]
  by (auto simp: handle_group_def Let_def split: group_gate.splits prod.splits)

lemma handleMessage_lazy:
  "lazyLoadedContainers st \<subseteq> lazyLoadedContainers (out_state (handleMessage e ev st))"
proof -
  obtain dup m where d: "isDuplicate (clock e) (ev_message_id ev) (processedMessages st) = (dup, m)"
    by (cases "isDuplicate (clock e) (ev_message_id ev) (processedMessages st)")
  let ?st1 = "st\<lparr>processedMessages := m\<rparr>"
  show ?thesis
    using d handle_p2p_lazy [of ?st1 e ev] handle_group_lazy [of ?st1 e ev]
    by (auto simp: handleMessage_def Let_def)
qed

lemma run_events_lazy:
  "k \<in> lazyLoadedContainers st \<Longrightarrow> k \<in> lazyLoadedContainers (run_events evs st)"
proof (induction evs arbitrary: st)
  case Nil
  then show ?case by simp
next
  case (Cons x xs)
  obtain e ev where x: "x = (e, ev)" by (cases x)
  from Cons.prems handleMessage_lazy [of st e ev]
  have "k \<in> lazyLoadedContainers (out_state (handleMessage e ev st))" by blast
  with Cons.IH x show ?case by simp
qed

lemma getContextWithFallback_loaded:
  "k \<in> lazyLoadedContainers st \<Longrightarrow>
   getContextWithFallback e cid cur ct k lim st
     = (getInMemoryContext (cfg st) (chatHistories st) k cur, [], st)"
  by (simp add: getContextWithFallback_def)

lemma getContextWithFallback_first_ok:
  assumes "k \<notin> lazyLoadedContainers st" and "listMessages e cid ct = FetchOk msgs"
  shows "fetches (fst (snd (getContextWithFallback e cid cur ct k lim st))) = 1"
    and "k \<in> lazyLoadedContainers (snd (snd (getContextWithFallback e cid cur ct k lim st)))"
  using assms by (simp_all add: getContextWithFallback_def Let_def fetches_def)

lemma getContextWithFallback_first_failed:
  assumes "k \<notin> lazyLoadedContainers st" and "\<forall>msgs. listMessages e cid ct \<noteq> FetchOk msgs"
  shows "fetches (fst (snd (getContextWithFallback e cid cur ct k lim st))) = 1"
    and "snd (snd (getContextWithFallback e cid cur ct k lim st)) = st"
  using assms
  by (auto simp: getContextWithFallback_def Let_def fetches_def split: fetch_result.splits)

lemma getContextWithFallback_unloaded_fetches:
  assumes "k \<notin> lazyLoadedContainers st"
  shows "fetches (fst (snd (getContextWithFallback e cid cur ct k lim st))) = 1"
  using assms
  by (auto simp: getContextWithFallback_def Let_def fetches_def split: fetch_result.splits)

lemma two_reads_eq:
  "two_reads e1 e2 cid cur1 cur2 ct k lim st
     = fst (snd (getContextWithFallback e1 cid cur1 ct k lim st))
       @ fst (snd (getContextWithFallback e2 cid cur2 ct k lim
                     (snd (snd (getContextWithFallback e1 cid cur1 ct k lim st)))))"
  by (simp add: two_reads_def split: prod.splits)

lemma fetches_append: "fetches (a @ b) = fetches a + fetches b"
  by (simp add: fetches_def)

text \<open>
  C5, as stated, fails: when the remote fetch does not succeed the key stays unmarked,
  and two consecutive reads for a never-accessed key fetch twice.
\<close>

theorem failed_backfill_is_repeated:
  "''oc_group'' \<notin> lazyLoadedContainers fresh_state
   \<and> fetches (two_reads (plain_env True FetchFailed) (plain_env True FetchFailed) ''oc_group''
        (Some ''om_1'') (Some ''om_2'') Chat ''oc_group'' None fresh_state) = 2"
  by (simp add: two_reads_def getContextWithFallback_def plain_env_def fresh_state_def
      fetches_def Let_def)

text \<open>
  C5, amended. For a key that has not been loaded in this process: when the first
  remote fetch succeeds, two consecutive reads with fallback make exactly one fetch,
  and after it every read for that key, whatever events the service has handled in
  between and whatever they did to the buffers, makes no fetch and returns the
  in-memory context; when the first fetch does not succeed (an unsuccessful result or
  an exception), the second read fetches again.
\<close>

theorem lazy_backfill:
  assumes "k \<notin> lazyLoadedContainers st"
  shows "(\<forall>msgs. listMessages e1 cid ct = FetchOk msgs
            \<longrightarrow> fetches (two_reads e1 e2 cid cur1 cur2 ct k lim st) = 1)
     \<and> (\<forall>msgs evs e cur. listMessages e1 cid ct = FetchOk msgs
            \<longrightarrow> getContextWithFallback e cid cur ct k lim
                  (run_events evs (snd (snd (getContextWithFallback e1 cid cur1 ct k lim st))))
                = (getInMemoryContext
                     (cfg (run_events evs (snd (snd (getContextWithFallback e1 cid cur1 ct k lim st)))))
                     (chatHistories (run_events evs (snd (snd (getContextWithFallback e1 cid cur1 ct k lim st)))))
                     k cur,
                   [],
                   run_events evs (snd (snd (getContextWithFallback e1 cid cur1 ct k lim st)))))
     \<and> ((\<forall>msgs. listMessages e1 cid ct \<noteq> FetchOk msgs)
            \<longrightarrow> fetches (two_reads e1 e2 cid cur1 cur2 ct k lim st) = 2)"
proof (intro conjI allI impI)
  fix msgs
  assume ok: "listMessages e1 cid ct = FetchOk msgs"
  note first = getContextWithFallback_first_ok [OF assms ok, of cur1 lim]
  show "fetches (two_reads e1 e2 cid cur1 cur2 ct k lim st) = 1"
    using first by (simp add: two_reads_eq fetches_append getContextWithFallback_loaded fetches_def)
next
  fix msgs evs e cur
  assume ok: "listMessages e1 cid ct = FetchOk msgs"
  let ?st1 = "snd (snd (getContextWithFallback e1 cid cur1 ct k lim st))"
  have "k \<in> lazyLoadedContainers ?st1"
    using assms ok by (rule getContextWithFallback_first_ok)
  then have "k \<in> lazyLoadedContainers (run_events evs ?st1)" by (rule run_events_lazy)
  then show "getContextWithFallback e cid cur ct k lim (run_events evs ?st1)
      = (getInMemoryContext (cfg (run_events evs ?st1)) (chatHistories (run_events evs ?st1)) k cur,
         [], run_events evs ?st1)"
    by (rule getContextWithFallback_loaded)
next
  assume bad: "\<forall>msgs. listMessages e1 cid ct \<noteq> FetchOk msgs"
  note first = getContextWithFallback_first_failed [OF assms bad, of cur1 lim]
  show "fetches (two_reads e1 e2 cid cur1 cur2 ct k lim st) = 2"
    using first getContextWithFallback_unloaded_fetches [OF assms, of e2 cid cur2 ct lim]
    by (simp add: two_reads_eq fetches_append)
qed

theorem lazy_backfill_witness:
  "''oc_group'' \<notin> lazyLoadedContainers fresh_state
   \<and> fetches (two_reads (plain_env True (FetchOk remote_sample)) (plain_env True FetchFailed)
        ''oc_group'' (Some ''om_1'') (Some ''om_2'') Chat ''oc_group'' None fresh_state) = 1
   \<and> fst (snd (getContextWithFallback (plain_env True FetchFailed) ''oc_group'' (Some ''om_3'') Chat
        ''oc_group'' None
        (run_events [(plain_env True FetchFailed, dm_event)]
           (snd (snd (getContextWithFallback (plain_env True (FetchOk remote_sample)) ''oc_group''
              (Some ''om_1'') Chat ''oc_group'' None fresh_state)))))) = []
   \<and> fetches (two_reads (plain_env True FetchThrows) (plain_env True (FetchOk remote_sample))
        ''oc_group'' (Some ''om_1'') (Some ''om_2'') Chat ''oc_group'' None fresh_state) = 2"
proof -
  have h: "''oc_group'' \<notin> lazyLoadedContainers fresh_state"
    by (simp add: fresh_state_def)
  have ok: "listMessages (plain_env True (FetchOk remote_sample)) ''oc_group'' Chat
              = FetchOk remote_sample"
    by (simp add: plain_env_def)
  have bad: "\<forall>msgs. listMessages (plain_env True FetchThrows) ''oc_group'' Chat \<noteq> FetchOk msgs"
    by (simp add: plain_env_def)
  note good = lazy_backfill [OF h, of "plain_env True (FetchOk remote_sample)" "''oc_group''" Chat
      "plain_env True FetchFailed" "Some ''om_1''" "Some ''om_2''" None]
  note fail = lazy_backfill [OF h, of "plain_env True FetchThrows" "''oc_group''" Chat
      "plain_env True (FetchOk remote_sample)" "Some ''om_1''" "Some ''om_2''" None]
  have 1: "fetches (two_reads (plain_env True (FetchOk remote_sample)) (plain_env True FetchFailed)
        ''oc_group'' (Some ''om_1'') (Some ''om_2'') Chat ''oc_group'' None fresh_state) = 1"
    using good ok by blast
  have 2: "fst (snd (getContextWithFallback (plain_env True FetchFailed) ''oc_group'' (Some ''om_3'') Chat
        ''oc_group'' None
        (run_events [(plain_env True FetchFailed, dm_event)]
           (snd (snd (getContextWithFallback (plain_env True (FetchOk remote_sample)) ''oc_group''
              (Some ''om_1'') Chat ''oc_group'' None fresh_state)))))) = []"
    using good ok by (metis fst_conv snd_conv)
  have 3: "fetches (two_reads (plain_env True FetchThrows) (plain_env True (FetchOk remote_sample))
        ''oc_group'' (Some ''om_1'') (Some ''om_2'') Chat ''oc_group'' None fresh_state) = 2"
    using fail bad by blast
  show ?thesis using h 1 2 3 by blast
qed

section \<open>Properties of the access policy\<close>

text \<open>
  C3, as stated, fails: under \<open>groupPolicy = disabled\<close> the bound owner who mentions
  the bot in a group is denied like everyone else.
\<close>

theorem owner_denied_when_groups_disabled:
  "isOwner (owned_config ''disabled'') (sender_user_id (group_event (Some [bot_mention])))
       (sender_open_id (group_event (Some [bot_mention])))
   \<and> denied (groupDecision (owned_config ''disabled'') ''ou_bot''
               (group_event (Some [bot_mention])))"
  by (simp add: isOwner_def owned_config_def DEFAULT_CONFIG_def group_event_def dm_event_def
      groupDecision_def effective_groupPolicy_def truthy_def or_empty_def denied_def)

text \<open>
  C3, amended. A sender whose user id or open id matches the bound owner is always
  allowed by the direct-message evaluation. In the group evaluation the owner is never
  denied by the per-group sender allowlist, and is not denied at all when the group
  policy is not \<open>disabled\<close> and the group is allowed or the message mentions the bot.
  Under the group policy \<open>disabled\<close> the owner is denied, as every sender is.
\<close>

theorem owner_bypass:
  assumes "isOwner c (sender_user_id ev) (sender_open_id ev)"
  shows "isDmAllowed c (sender_user_id ev) (sender_open_id ev)
     \<and> groupDecision c botId ev \<noteq> SenderNotAllowed
     \<and> (effective_groupPolicy c \<noteq> ''disabled''
          \<and> (isGroupAllowed c (chat_id ev) \<or> isBotMentioned (mentions ev) botId)
        \<longrightarrow> \<not> denied (groupDecision c botId ev))
     \<and> (effective_groupPolicy c = ''disabled''
        \<longrightarrow> groupDecision c botId ev = PolicyDisabled \<and> denied (groupDecision c botId ev))"
  using assms by (auto simp: isDmAllowed_def groupDecision_def denied_def Let_def)

theorem owner_bypass_witness:
  "isOwner (owned_config ''allowlist'') (Some ''u_alice'') (Some ''ou_alice'')
   \<and> isDmAllowed (owned_config ''allowlist'') (Some ''u_alice'') (Some ''ou_alice'')
   \<and> groupDecision (owned_config ''allowlist'') ''ou_bot'' (group_event (Some [bot_mention]))
       = Forward
   \<and> isOwner (owned_config ''disabled'') (Some ''u_alice'') (Some ''ou_alice'')
   \<and> effective_groupPolicy (owned_config ''disabled'') = ''disabled''
   \<and> groupDecision (owned_config ''disabled'') ''ou_bot'' (group_event None) = PolicyDisabled"
  using owner_bypass [of "owned_config ''allowlist''" "group_event (Some [bot_mention])" "''ou_bot''"]
    owner_bypass [of "owned_config ''disabled''" "group_event None" "''ou_bot''"]
  by (simp add: isOwner_def owned_config_def DEFAULT_CONFIG_def group_event_def dm_event_def
      groupDecision_def effective_groupPolicy_def truthy_def or_empty_def denied_def
      isGroupAllowed_def isBotMentioned_def bot_mention_def js_or_def isSmartGroup_def
      resolveGroupConfig_def isSenderAllowedInGroup_def isDmAllowed_def)

section \<open>Properties of owner binding\<close>

text \<open>
  What \<open>bindOwner\<close> does with the \<open>saveConfig\<close> of \<open>lib/config.js\<close>: a failed write
  leaves by the exception with the new owner still assigned in memory; a successful
  write returns \<open>undefined\<close>, which \<open>!saveConfig(config)\<close> reads as a failure, so the
  owner is written to disk, restored in memory, and \<open>null\<close> is returned. Hence a direct
  message to an unbound deployment is never forwarded.
\<close>

lemma bindOwner_write_failed:
  "\<not> write_ok e \<Longrightarrow>
   bindOwner e userId openId st
     = (Inl SaveConfigError,
        st\<lparr>cfg := (cfg st)\<lparr>owner :=
              Some \<lparr>bound = True, owner_user_id = userId, owner_open_id = openId,
                    owner_name = resolveUserName e userId\<rparr>\<rparr>\<rparr>)"
  by (simp add: bindOwner_def saveConfig_def Let_def)

lemma bindOwner_write_ok:
  "write_ok e \<Longrightarrow>
   fst (bindOwner e userId openId st) = Inr None
   \<and> owner (cfg (snd (bindOwner e userId openId st))) = owner (cfg st)
   \<and> owner (disk (snd (bindOwner e userId openId st)))
       = Some \<lparr>bound = True, owner_user_id = userId, owner_open_id = openId,
               owner_name = resolveUserName e userId\<rparr>"
  by (simp add: bindOwner_def saveConfig_def Let_def)

lemma unbound_dm_never_forwarded:
  assumes "\<not> owner_bound (cfg st)" and "chat_type ev = ''p2p''"
  shows "\<not> list_ex is_forward (out_effects (handleMessage e ev st))"
proof -
  have b: "handle_p2p e ev st' = \<lparr>out_state = snd (bindOwner e (sender_user_id ev) (sender_open_id ev) st'),
            out_effects = [WriteConfig], out_thrown = \<not> write_ok e\<rparr>"
    if "\<not> owner_bound (cfg st')" for st'
    using that
    by (cases "write_ok e")
       (simp_all add: handle_p2p_def bindOwner_def saveConfig_def Let_def truthy_def)
  show ?thesis
    using assms b [of "st\<lparr>processedMessages := m\<rparr>" for m]
    by (auto simp: handleMessage_def Let_def split: prod.splits)
qed

text \<open>
  C1 at a failing write: binding Alice on the default configuration ends in the
  exception of \<open>saveConfig\<close>; in memory the owner is Alice, bound, while the file still
  holds the unbound owner. The assignment has not been rolled back.
\<close>

theorem bindOwner_failed_save_not_rolled_back:
  "fst (bindOwner (plain_env False FetchFailed) (Some ''u_alice'') (Some ''ou_alice'') fresh_state)
     = Inl SaveConfigError
   \<and> owner (cfg (snd (bindOwner (plain_env False FetchFailed) (Some ''u_alice'')
                         (Some ''ou_alice'') fresh_state)))
     = Some \<lparr>bound = True, owner_user_id = Some ''u_alice'', owner_open_id = Some ''ou_alice'',
             owner_name = ''Alice''\<rparr>
   \<and> owner (disk (snd (bindOwner (plain_env False FetchFailed) (Some ''u_alice'')
                          (Some ''ou_alice'') fresh_state)))
     = Some \<lparr>bound = False, owner_user_id = Some [], owner_open_id = Some [], owner_name = []\<rparr>"
  by (simp add: bindOwner_def saveConfig_def plain_env_def fresh_state_def DEFAULT_CONFIG_def)

text \<open>
  C2 at the first direct message of an unbound deployment. When the write succeeds the
  handler returns after \<open>bindOwner\<close>: its only call is the write of the configuration,
  nothing is forwarded, the owner in memory is still unbound and the file holds the bound
  owner. When the write fails the handler ends in the exception, again after the write
  alone.
\<close>

theorem first_dm_not_forwarded:
  "\<not> owner_bound (cfg fresh_state)
   \<and> out_effects (handleMessage (plain_env True FetchFailed) dm_event fresh_state) = [WriteConfig]
   \<and> out_thrown (handleMessage (plain_env True FetchFailed) dm_event fresh_state) = False
   \<and> owner_bound (cfg (out_state (handleMessage (plain_env True FetchFailed) dm_event fresh_state)))
       = False
   \<and> owner_bound (disk (out_state (handleMessage (plain_env True FetchFailed) dm_event fresh_state)))
       = True
   \<and> out_effects (handleMessage (plain_env False FetchFailed) dm_event fresh_state) = [WriteConfig]
   \<and> out_thrown (handleMessage (plain_env False FetchFailed) dm_event fresh_state) = True"
  by (simp add: handleMessage_def is_self_def senderId_of_def js_or_def truthy_def or_empty_def
      isDuplicate_def ledger_has_def handle_p2p_def owner_bound_def bindOwner_def
      saveConfig_def plain_env_def fresh_state_def DEFAULT_CONFIG_def dm_event_def Let_def)

section \<open>Properties of the message handler\<close>

text \<open>
  C10. When the sender id of an event (its first non-empty one of open id, app id and
  user id) equals the bot's app id, the bot's open id, the configured app id or the
  configured bot open id, \<open>handleMessage\<close> returns at once: the state is unchanged (no
  dedup entry, no history entry) and no call is made (no log line, no typing indicator,
  no dispatch).
\<close>

theorem self_message_suppressed:
  assumes "senderId_of ev \<noteq> []"
    and "senderId_of ev = botAppId st \<or> senderId_of ev = botOpenId st
         \<or> senderId_of ev = or_empty (cfg_app_id (cfg st))
         \<or> senderId_of ev = or_empty (cfg_bot_open_id (cfg st))"
  shows "handleMessage e ev st = \<lparr>out_state = st, out_effects = [], out_thrown = False\<rparr>"
  using assms by (simp add: handleMessage_def is_self_def)

theorem self_message_suppressed_witness:
  "senderId_of (dm_event\<lparr>sender_open_id := Some ''ou_bot''\<rparr>) \<noteq> []
   \<and> senderId_of (dm_event\<lparr>sender_open_id := Some ''ou_bot''\<rparr>) = botOpenId fresh_state
   \<and> handleMessage (plain_env True FetchFailed) (dm_event\<lparr>sender_open_id := Some ''ou_bot''\<rparr>)
        fresh_state
      = \<lparr>out_state = fresh_state, out_effects = [], out_thrown = False\<rparr>"
  using self_message_suppressed [of "dm_event\<lparr>sender_open_id := Some ''ou_bot''\<rparr>" fresh_state
      "plain_env True FetchFailed"]
  by (simp add: senderId_of_def dm_event_def js_or_def truthy_def or_empty_def fresh_state_def)

section \<open>Properties of the dispatcher\<close>

text \<open>
  C7. For non-empty content: a first attempt that fails without a structured rejection,
  followed by a successful retry, makes two calls of which one delivers, and the
  rejection callback is not invoked; a structured rejection on the first attempt makes
  that one call only, delivers nothing, and invokes the rejection callback once, with
  the rejection's message.
\<close>

theorem sendToC4_retry:
  assumes "content \<noteq> []"
  shows "(\<not> is_rejection r \<longrightarrow>
            sendToC4 (ExecError r) ExecOk source endpoint content onReject
              = \<lparr>c4_calls = 2, c4_delivered = 1, c4_rejects = []\<rparr>)
     \<and> (is_rejection r \<longrightarrow>
            sendToC4 (ExecError r) retry source endpoint content True
              = \<lparr>c4_calls = 1, c4_delivered = 0, c4_rejects = [rejection_message r]\<rparr>)"
  using assms by (simp add: sendToC4_def)

theorem sendToC4_retry_witness:
  "''hello'' \<noteq> []
   \<and> \<not> is_rejection None
   \<and> sendToC4 (ExecError None) ExecOk ''feishu'' ''oc_dm|type:p2p'' ''hello'' True
       = \<lparr>c4_calls = 2, c4_delivered = 1, c4_rejects = []\<rparr>
   \<and> is_rejection (Some \<lparr>resp_ok = Some False, resp_error_message = Some ''busy''\<rparr>)
   \<and> sendToC4 (ExecError (Some \<lparr>resp_ok = Some False, resp_error_message = Some ''busy''\<rparr>))
        ExecOk ''feishu'' ''oc_dm|type:p2p'' ''hello'' True
       = \<lparr>c4_calls = 1, c4_delivered = 0, c4_rejects = [''busy'']\<rparr>"
  using sendToC4_retry [of "''hello''" None "''feishu''" "''oc_dm|type:p2p''" True ExecOk]
    sendToC4_retry [of "''hello''" "Some \<lparr>resp_ok = Some False, resp_error_message = Some ''busy''\<rparr>"
       "''feishu''" "''oc_dm|type:p2p''" True ExecOk]
  by (simp add: is_rejection_def truthy_def rejection_message_def or_empty_def)

section \<open>Properties of the typing indicator\<close>

lemma addTypingIndicator_success:
  "rid \<noteq> [] \<Longrightarrow>
   addTypingIndicator t0 (AddResult True (Some rid)) mid S
     = (True,
        S\<lparr>active := (active S)(mid \<mapsto> \<lparr>reactionId = rid, entry_ref = Suc (next_id S)\<rparr>),
          timer_field := (timer_field S)(Suc (next_id S) \<mapsto> next_id S),
          pending := (pending S)(next_id S \<mapsto> ExpiryTimer mid (t0 + TYPING_TIMEOUT)),
          next_id := Suc (Suc (next_id S))\<rparr>)"
  by (simp add: addTypingIndicator_def truthy_def or_empty_def)

lemma removeTypingIndicator_begin_noop:
  "active S mid = None \<Longrightarrow> removeTypingIndicator_begin mid S = (Finished, S)"
  by (simp add: removeTypingIndicator_begin_def)

lemma removeTypingIndicator_noop:
  "active S mid = None \<Longrightarrow> removeTypingIndicator t1 r1 t2 r2 mid S = S"
  by (simp add: removeTypingIndicator_def removeTypingIndicator_begin_def)

lemma removeTypingIndicator_success:
  assumes "active S mid = Some st"
    and "a1 = RemoveResult True \<or> (a1 = RemoveResult False \<and> a2 = RemoveResult True)"
  shows "active (removeTypingIndicator t1 a1 t2 a2 mid S) = (active S)(mid := None)"
    and "removals (settled (removeTypingIndicator t1 a1 t2 a2 mid S)) = Suc (removals (settled S))"
    and "pending (removeTypingIndicator t1 a1 t2 a2 mid S)
           = pending (clearTimeout (timer_field S (entry_ref st)) S)"
  using assms
  by (auto simp: removeTypingIndicator_def removeTypingIndicator_begin_def settle_removal_def
      record_call_def removals_def clearTimeout_def split: option.splits)

lemma tracked_start:
  "rid \<noteq> [] \<Longrightarrow>
   tracked mid \<lparr>reactionId = rid, entry_ref = Suc (next_id S)\<rparr> (removals (settled S))
     (snd (addTypingIndicator t0 (AddResult True (Some rid)) mid S))"
  by (simp add: addTypingIndicator_success tracked_def)

lemma tracked_resume_first:
  assumes "tracked mid st n S" and "active S mid = Some st"
  shows "tracked mid st n (removeTypingIndicator t1 a1 t2 a2 mid S)"
  using assms
  by (cases a1; cases a2)
     (auto simp: tracked_def removeTypingIndicator_def removeTypingIndicator_begin_def
       settle_removal_def record_call_def removals_def clearTimeout_def
       split: option.splits bool.splits timer.splits)

lemma tracked_complete:
  assumes "tracked mid st n S"
  shows "tracked mid st n (removeTypingIndicator t1 a1 t2 a2 mid S)"
proof (cases "active S mid")
  case None
  with assms show ?thesis by (simp add: removeTypingIndicator_noop)
next
  case (Some st')
  with assms have "st' = st" by (simp add: tracked_def)
  with Some assms show ?thesis by (simp add: tracked_resume_first)
qed

lemma tracked_drop_pending:
  "tracked mid st n S \<Longrightarrow> tracked mid st n (S\<lparr>pending := (pending S)(h := None)\<rparr>)"
  by (auto simp: tracked_def split: option.splits timer.splits)

lemma timer_run_expiry:
  assumes "pending S h = Some (ExpiryTimer m due)" and "\<not> now < due"
  shows "timer_run now h c1 c2 S
           = removeTypingIndicator now c1 (now + 1000) c2 m (S\<lparr>pending := (pending S)(h := None)\<rparr>)"
  using assms by (simp add: timer_run_def timer_fires_def removeTypingIndicator_def)

lemma tracked_timer:
  assumes "tracked mid st n S" and "timer_field S (entry_ref st) = Some h"
  shows "tracked mid st n (timer_run t3 h c1 c2 S)"
proof (cases "pending S h")
  case None
  with assms show ?thesis by (simp add: timer_run_def timer_fires_def)
next
  case (Some tm)
  then have present: "active S mid = Some st"
    using assms by (auto simp: tracked_def split: option.splits)
  show ?thesis
  proof (cases tm)
    case (ExpiryTimer m due)
    with Some assms present have m: "m = mid" by (simp add: tracked_def)
    show ?thesis
    proof (cases "t3 < due")
      case True
      with Some ExpiryTimer assms show ?thesis by (simp add: timer_run_def timer_fires_def)
    next
      case False
      with Some ExpiryTimer m assms show ?thesis
        by (simp add: timer_run_expiry tracked_complete tracked_drop_pending)
    qed
  next
    case (DeferredTimer m r due)
    with Some assms present have m: "m = mid" "r = reactionId st" by (simp_all add: tracked_def)
    show ?thesis
    proof (cases "t3 < due")
      case True
      with Some DeferredTimer assms show ?thesis by (simp add: timer_run_def timer_fires_def)
    next
      case False
      with Some DeferredTimer m assms present show ?thesis
        by (auto simp: timer_run_def timer_fires_def tracked_def record_call_def removals_def)
    qed
  qed
qed

lemma tracked_bound: "tracked mid st n S \<Longrightarrow> removals (settled S) \<le> Suc n"
  by (auto simp: tracked_def split: option.splits)

lemma removals_at_most_once:
  assumes "rid \<noteq> []"
  shows "removals (settled (complete_twice_then_timer t1 a1 a2 t2 b1 b2 t3 c1 c2 (Suc (next_id S)) mid
            (snd (addTypingIndicator t0 (AddResult True (Some rid)) mid S))))
     \<le> Suc (removals (settled S))"
proof -
  let ?st = "\<lparr>reactionId = rid, entry_ref = Suc (next_id S)\<rparr>"
  let ?n = "removals (settled S)"
  let ?S1 = "snd (addTypingIndicator t0 (AddResult True (Some rid)) mid S)"
  let ?S3 = "removeTypingIndicator t2 b1 (t2 + 1000) b2 mid
               (removeTypingIndicator t1 a1 (t1 + 1000) a2 mid ?S1)"
  have "tracked mid ?st ?n ?S1" using assms by (rule tracked_start)
  then have 3: "tracked mid ?st ?n ?S3" by (intro tracked_complete)
  have "tracked mid ?st ?n (complete_twice_then_timer t1 a1 a2 t2 b1 b2 t3 c1 c2 (Suc (next_id S)) mid ?S1)"
  proof (cases "timer_field ?S3 (Suc (next_id S))")
    case None
    with 3 show ?thesis by (simp add: complete_twice_then_timer_def Let_def)
  next
    case (Some h)
    then have "tracked mid ?st ?n (timer_run t3 h c1 c2 ?S3)"
      using 3 by (intro tracked_timer) simp_all
    with Some show ?thesis by (simp add: complete_twice_then_timer_def Let_def)
  qed
  then show ?thesis by (rule tracked_bound)
qed

text \<open>
  C9, as stated, fails: \<open>removeTypingIndicator\<close> deletes the entry only after its
  \<open>removeReaction\<close> has answered, and nothing marks a removal as under way. A second
  completion signal that arrives while the first still awaits the answer finds the
  entry and calls \<open>removeReaction\<close> again; with both calls reported successful the
  reaction is removed twice, inside the expiry window.
\<close>

theorem overlapping_completions_remove_twice:
  "fst (addTypingIndicator 0 (AddResult True (Some ''r1'')) (Some ''om_1'') idle_typing) = True
   \<and> (5001::int) < 0 + TYPING_TIMEOUT
   \<and> settled (overlapping_completions 5000 (RemoveResult True) 5001 (RemoveResult True)
         (Some ''om_1'')
         (snd (addTypingIndicator 0 (AddResult True (Some ''r1'')) (Some ''om_1'') idle_typing)))
      = [RemoveReaction (Some ''om_1'') ''r1'' True, RemoveReaction (Some ''om_1'') ''r1'' True]
   \<and> removals (settled (overlapping_completions 5000 (RemoveResult True) 5001 (RemoveResult True)
         (Some ''om_1'')
         (snd (addTypingIndicator 0 (AddResult True (Some ''r1'')) (Some ''om_1'') idle_typing))))
      = 2"
  by (simp add: addTypingIndicator_def truthy_def or_empty_def idle_typing_def TYPING_TIMEOUT_def
      overlapping_completions_def removeTypingIndicator_begin_def clearTimeout_def
      settle_removal_def record_call_def removals_def)

text \<open>
  C9, amended. After a successful start at time \<open>t0\<close> the auto-remove timer is idle
  before \<open>t0 + 120 s\<close>. A completion signal in that window that runs to its end and
  whose removal succeeds (at the first call or at the retry) removes the reaction once
  and deletes the entry; a second completion signal that starts after the first has
  ended, and the timeout of the entry, then make no call and change nothing. Whatever
  the remote answers, two completion signals run one after the other and the timeout of
  the entry never remove the reaction more than once. A completion signal for a message
  without an entry makes no call and changes nothing. A completion signal that starts
  while an earlier one still awaits its call finds the entry and awaits a call of its
  own.
\<close>

theorem typing_indicator_completed_once:
  assumes "rid \<noteq> []"
    and "t1 < t0 + TYPING_TIMEOUT"
    and "a1 = RemoveResult True \<or> (a1 = RemoveResult False \<and> a2 = RemoveResult True)"
  shows "fst (addTypingIndicator t0 (AddResult True (Some rid)) mid S) = True
     \<and> timer_fires t1 (next_id S) (snd (addTypingIndicator t0 (AddResult True (Some rid)) mid S))
         = (Finished, snd (addTypingIndicator t0 (AddResult True (Some rid)) mid S))
     \<and> active (removeTypingIndicator t1 a1 (t1 + 1000) a2 mid
                 (snd (addTypingIndicator t0 (AddResult True (Some rid)) mid S))) mid = None
     \<and> removals (settled (removeTypingIndicator t1 a1 (t1 + 1000) a2 mid
                 (snd (addTypingIndicator t0 (AddResult True (Some rid)) mid S))))
         = Suc (removals (settled S))
     \<and> complete_twice_then_timer t1 a1 a2 t2 b1 b2 t3 c1 c2 (Suc (next_id S)) mid
           (snd (addTypingIndicator t0 (AddResult True (Some rid)) mid S))
         = removeTypingIndicator t1 a1 (t1 + 1000) a2 mid
             (snd (addTypingIndicator t0 (AddResult True (Some rid)) mid S))
     \<and> (\<forall>x1 x2 y1 y2 z1 z2.
           removals (settled (complete_twice_then_timer t1 x1 x2 t2 y1 y2 t3 z1 z2
                                (Suc (next_id S)) mid
                                (snd (addTypingIndicator t0 (AddResult True (Some rid)) mid S))))
           \<le> Suc (removals (settled S)))
     \<and> (\<forall>S'. active S' mid = None \<longrightarrow>
           removeTypingIndicator_begin mid S' = (Finished, S')
           \<and> removeTypingIndicator t2 b1 (t2 + 1000) b2 mid S' = S')
     \<and> fst (removeTypingIndicator_begin mid
              (snd (removeTypingIndicator_begin mid
                      (snd (addTypingIndicator t0 (AddResult True (Some rid)) mid S)))))
         = AwaitFirst mid \<lparr>reactionId = rid, entry_ref = Suc (next_id S)\<rparr>"
proof -
  let ?st = "\<lparr>reactionId = rid, entry_ref = Suc (next_id S)\<rparr>"
  let ?S1 = "snd (addTypingIndicator t0 (AddResult True (Some rid)) mid S)"
  let ?S2 = "removeTypingIndicator t1 a1 (t1 + 1000) a2 mid ?S1"
  note start = addTypingIndicator_success [OF assms(1), of t0 mid S]
  have entry: "active ?S1 mid = Some ?st" by (simp add: start)
  have tf: "timer_field ?S1 (entry_ref ?st) = Some (next_id S)" by (simp add: start)
  have idle: "timer_fires t1 (next_id S) ?S1 = (Finished, ?S1)"
    using assms(2) by (simp add: start timer_fires_def)
  note fin = removeTypingIndicator_success [where S = "?S1" and mid = mid and st = "?st"
      and ?t1.0 = t1 and ?t2.0 = "t1 + 1000", OF entry assms(3)]
  have gone: "active ?S2 mid = None" by (simp add: fin(1))
  have second: "removeTypingIndicator t2 b1 (t2 + 1000) b2 mid ?S2 = ?S2"
    using gone by (rule removeTypingIndicator_noop)
  have tf2: "timer_field ?S2 (Suc (next_id S)) = Some (next_id S)"
    using assms(3)
    by (auto simp: start removeTypingIndicator_def removeTypingIndicator_begin_def
        settle_removal_def record_call_def clearTimeout_def)
  have cleared: "pending ?S2 (next_id S) = None"
    using tf by (simp add: fin(3) clearTimeout_def)
  have timer: "timer_run t3 (next_id S) c1 c2 ?S2 = ?S2"
    using cleared by (simp add: timer_run_def timer_fires_def)
  have all: "complete_twice_then_timer t1 a1 a2 t2 b1 b2 t3 c1 c2 (Suc (next_id S)) mid ?S1 = ?S2"
    using second tf2 timer by (simp add: complete_twice_then_timer_def Let_def)
  have overlap: "fst (removeTypingIndicator_begin mid (snd (removeTypingIndicator_begin mid ?S1)))
                   = AwaitFirst mid ?st"
    by (simp add: start removeTypingIndicator_begin_def clearTimeout_def)
  show ?thesis
    using start idle gone fin(2) all overlap removals_at_most_once [OF assms(1), of t1 _ _ t2 _ _ t3 _ _ S mid t0]
    by (simp add: removeTypingIndicator_begin_noop removeTypingIndicator_noop)
qed

theorem typing_indicator_completed_once_witness:
  "''r1'' \<noteq> [] \<and> (5000::int) < 0 + TYPING_TIMEOUT
   \<and> settled (removeTypingIndicator 5000 (RemoveResult False) (5000 + 1000) (RemoveResult True)
        (Some ''om_1'')
        (snd (addTypingIndicator 0 (AddResult True (Some ''r1'')) (Some ''om_1'') idle_typing)))
      = [RemoveReaction (Some ''om_1'') ''r1'' False, RemoveReaction (Some ''om_1'') ''r1'' True]
   \<and> complete_twice_then_timer 5000 (RemoveResult False) (RemoveResult True)
        7000 (RemoveResult True) (RemoveResult True) 130000 (RemoveResult True) (RemoveResult True)
        (Suc (next_id idle_typing)) (Some ''om_1'')
        (snd (addTypingIndicator 0 (AddResult True (Some ''r1'')) (Some ''om_1'') idle_typing))
      = removeTypingIndicator 5000 (RemoveResult False) (5000 + 1000) (RemoveResult True)
          (Some ''om_1'')
          (snd (addTypingIndicator 0 (AddResult True (Some ''r1'')) (Some ''om_1'') idle_typing))
   \<and> active (removeTypingIndicator 5000 (RemoveResult False) (5000 + 1000) (RemoveResult True)
        (Some ''om_1'')
        (snd (addTypingIndicator 0 (AddResult True (Some ''r1'')) (Some ''om_1'') idle_typing)))
        (Some ''om_1'') = None
   \<and> active idle_typing (Some ''om_2'') = None
   \<and> removeTypingIndicator_begin (Some ''om_2'') idle_typing = (Finished, idle_typing)"
  using typing_indicator_completed_once [of "''r1''" 5000 0 "RemoveResult False" "RemoveResult True"
      "Some ''om_1''" idle_typing 7000 "RemoveResult True" "RemoveResult True" 130000
      "RemoveResult True" "RemoveResult True"]
    typing_indicator_completed_once [of "''r1''" 5000 0 "RemoveResult False" "RemoveResult True"
      "Some ''om_2''" idle_typing 7000 "RemoveResult True" "RemoveResult True" 130000
      "RemoveResult True" "RemoveResult True"]
  by (simp add: TYPING_TIMEOUT_def idle_typing_def addTypingIndicator_def truthy_def or_empty_def
      removeTypingIndicator_def removeTypingIndicator_begin_def clearTimeout_def
      settle_removal_def record_call_def)

end
